theory Spec2Isabelle
  imports Complex_Main "HOL-Library.Monad_Syntax" "HOL-Library.Word"
begin

section \<open>Numbers\<close>

text \<open>
  The metrics of \<^verbatim>\<open>src/utils/imageAnalysisUtils.ts\<close> are JavaScript numbers. They are
  modelled by exact reals, with \<open>None\<close> for NaN, the value that arithmetic on
  \<^verbatim>\<open>undefined\<close> (a read outside a typed array) and \<^verbatim>\<open>0 / 0\<close> produce. The
  infinities are left out: no operation of the assessor produces one from a byte
  buffer. The rounding of IEEE doubles is written out for the sharpness, in the section on
  double precision, which translates \<^verbatim>\<open>calculateSharpness\<close> a second time; everywhere
  else the arithmetic is read as exact.
\<close>

type_synonym number = "real option"

text \<open>A comparison with NaN is false, whichever way it is written.\<close>

definition num_lt :: "number \<Rightarrow> real \<Rightarrow> bool" where
  "num_lt a k = (case a of None \<Rightarrow> False | Some x \<Rightarrow> x < k)"

definition num_gt :: "number \<Rightarrow> real \<Rightarrow> bool" where
  "num_gt a k = (case a of None \<Rightarrow> False | Some x \<Rightarrow> x > k)"

definition num_le :: "number \<Rightarrow> real \<Rightarrow> bool" where
  "num_le a k = (case a of None \<Rightarrow> False | Some x \<Rightarrow> x \<le> k)"

definition num_ge :: "number \<Rightarrow> real \<Rightarrow> bool" where
  "num_ge a k = (case a of None \<Rightarrow> False | Some x \<Rightarrow> x \<ge> k)"

text \<open>\<^verbatim>\<open>Math.round\<close>: the nearest integer, a tie going up.\<close>

definition Math_round :: "real \<Rightarrow> real" where
  "Math_round x = real_of_int \<lfloor>x + 1 / 2\<rfloor>"

section \<open>Quality tier and recommendations\<close>

datatype quality = excellent | good | fair | poor

text \<open>
  \<^verbatim>\<open>determineQuality\<close>, lines 131 to 151: the local \<^verbatim>\<open>score\<close>, which four
  \<^verbatim>\<open>if\<close>/\<^verbatim>\<open>else if\<close> chains add to in turn.
\<close>

definition qualityScore :: "number \<Rightarrow> number \<Rightarrow> number \<Rightarrow> number \<Rightarrow> nat" where
  "qualityScore brightness contrast sharpness pixels =
    (let score = 0;
         score = (if num_ge brightness 120 \<and> num_le brightness 180 then score + 3
                  else if num_ge brightness 100 \<and> num_le brightness 200 then score + 2
                  else if num_ge brightness 80 \<and> num_le brightness 220 then score + 1
                  else score);
         score = (if num_ge contrast 50 \<and> num_le contrast 80 then score + 3
                  else if num_ge contrast 30 \<and> num_le contrast 100 then score + 2
                  else if num_ge contrast 20 \<and> num_le contrast 120 then score + 1
                  else score);
         score = (if num_ge sharpness 15 then score + 3
                  else if num_ge sharpness 10 then score + 2
                  else if num_ge sharpness 5 then score + 1
                  else score);
         score = (if num_ge pixels 2073600 then score + 3
                  else if num_ge pixels 921600 then score + 2
                  else if num_ge pixels 307200 then score + 1
                  else score)
     in score)"

text \<open>\<^verbatim>\<open>determineQuality\<close>, lines 153 to 157: the tier of that score.\<close>

definition determineQuality :: "number \<Rightarrow> number \<Rightarrow> number \<Rightarrow> number \<Rightarrow> quality" where
  "determineQuality brightness contrast sharpness pixels =
    (let score = qualityScore brightness contrast sharpness pixels
     in if score \<ge> 10 then excellent
        else if score \<ge> 7 then good
        else if score \<ge> 4 then fair
        else poor)"

text \<open>
  The six advisory strings of \<^verbatim>\<open>generateRecommendations\<close>. Each starts with an emoji,
  written here as the bytes of its UTF-8 encoding in the source file.
\<close>

definition msg_increase_lighting :: string where
  "msg_increase_lighting =
     [CHR 0xF0, CHR 0x9F, CHR 0x93, CHR 0xA1] @ '' Increase lighting or move to a brighter area''"

definition msg_reduce_lighting :: string where
  "msg_reduce_lighting =
     [CHR 0xE2, CHR 0x98, CHR 0x80, CHR 0xEF, CHR 0xB8, CHR 0x8F]
       @ '' Reduce lighting or avoid direct sunlight''"

definition msg_improve_contrast :: string where
  "msg_improve_contrast =
     [CHR 0xF0, CHR 0x9F, CHR 0x8E, CHR 0xA8]
       @ '' Improve contrast by adjusting lighting or background''"

definition msg_hold_steady :: string where
  "msg_hold_steady =
     [CHR 0xF0, CHR 0x9F, CHR 0x8E, CHR 0xAF]
       @ '' Hold camera steady and ensure equipment is in focus''"

definition msg_move_closer :: string where
  "msg_move_closer =
     [CHR 0xF0, CHR 0x9F, CHR 0x93, CHR 0xB1]
       @ '' Move closer to equipment or use higher camera resolution''"

definition msg_optimal :: string where
  "msg_optimal = [CHR 0xE2, CHR 0x9C, CHR 0xA8] @ '' Image quality is optimal for analysis!''"

text \<open>
  \<^verbatim>\<open>generateRecommendations\<close>: the array \<^verbatim>\<open>recommendations\<close> starts empty, each
  \<^verbatim>\<open>push\<close> appends, and the last test looks at its length.
\<close>

definition generateRecommendations :: "number \<Rightarrow> number \<Rightarrow> number \<Rightarrow> number \<Rightarrow> string list" where
  "generateRecommendations brightness contrast sharpness pixels =
    (let recommendations = [];
         recommendations = (if num_lt brightness 80 then recommendations @ [msg_increase_lighting]
                            else if num_gt brightness 220 then recommendations @ [msg_reduce_lighting]
                            else recommendations);
         recommendations = (if num_lt contrast 20 then recommendations @ [msg_improve_contrast]
                            else recommendations);
         recommendations = (if num_lt sharpness 5 then recommendations @ [msg_hold_steady]
                            else recommendations);
         recommendations = (if num_lt pixels 307200 then recommendations @ [msg_move_closer]
                            else recommendations);
         recommendations = (if length recommendations = 0 then recommendations @ [msg_optimal]
                            else recommendations)
     in recommendations)"

subsection \<open>The scoring rules as the specification words them\<close>

text \<open>
  Step 5 of the assessor's algorithm: four sub-scores, each the best band the metric
  falls in. Step 6: the tier of their sum.
\<close>

definition brightness_band :: "number \<Rightarrow> nat" where
  "brightness_band b =
     (if num_ge b 120 \<and> num_le b 180 then 3
      else if num_ge b 100 \<and> num_le b 200 then 2
      else if num_ge b 80 \<and> num_le b 220 then 1 else 0)"

definition contrast_band :: "number \<Rightarrow> nat" where
  "contrast_band c =
     (if num_ge c 50 \<and> num_le c 80 then 3
      else if num_ge c 30 \<and> num_le c 100 then 2
      else if num_ge c 20 \<and> num_le c 120 then 1 else 0)"

definition sharpness_band :: "number \<Rightarrow> nat" where
  "sharpness_band s = (if num_ge s 15 then 3 else if num_ge s 10 then 2 else if num_ge s 5 then 1 else 0)"

definition resolution_band :: "number \<Rightarrow> nat" where
  "resolution_band p =
     (if num_ge p 2073600 then 3 else if num_ge p 921600 then 2 else if num_ge p 307200 then 1 else 0)"

text \<open>
  Step 7: the deficiencies in their enumeration order (lighting, contrast, sharpness,
  resolution), each contributing its message or nothing.
\<close>

definition lighting_issue :: "number \<Rightarrow> string list" where
  "lighting_issue b =
     (if num_lt b 80 then [msg_increase_lighting] else if num_gt b 220 then [msg_reduce_lighting] else [])"

definition contrast_issue :: "number \<Rightarrow> string list" where
  "contrast_issue c = (if num_lt c 20 then [msg_improve_contrast] else [])"

definition sharpness_issue :: "number \<Rightarrow> string list" where
  "sharpness_issue s = (if num_lt s 5 then [msg_hold_steady] else [])"

definition resolution_issue :: "number \<Rightarrow> string list" where
  "resolution_issue p = (if num_lt p 307200 then [msg_move_closer] else [])"

definition deficient :: "number \<Rightarrow> number \<Rightarrow> number \<Rightarrow> number \<Rightarrow> bool" where
  "deficient b c s p \<longleftrightarrow>
     num_lt b 80 \<or> num_gt b 220 \<or> num_lt c 20 \<or> num_lt s 5 \<or> num_lt p 307200"

section \<open>Image metrics\<close>

text \<open>
  The pixel buffer is a \<^verbatim>\<open>Uint8ClampedArray\<close>: bytes, four to a pixel (red, green,
  blue, alpha), rows from the top. Reading it outside its bounds gives
  \<^verbatim>\<open>undefined\<close>, which arithmetic turns into NaN.
\<close>

definition element :: "8 word list \<Rightarrow> int \<Rightarrow> number" where
  "element data i =
     (if 0 \<le> i \<and> i < int (length data) then Some (real (unat (data ! nat i))) else None)"

text \<open>
  The expression \<^verbatim>\<open>0.299 * data[i] + 0.587 * data[i + 1] + 0.114 * data[i + 2]\<close>, which
  the source writes out in three places.
\<close>

definition luminance :: "8 word list \<Rightarrow> int \<Rightarrow> number" where
  "luminance data i =
     do {
       r \<leftarrow> element data i;
       g \<leftarrow> element data (i + 1);
       b \<leftarrow> element data (i + 2);
       Some (0.299 * r + 0.587 * g + 0.114 * b)
     }"

text \<open>\<^verbatim>\<open>Math.sqrt\<close> is NaN below zero; \<^verbatim>\<open>x / y\<close> is NaN when both are zero.\<close>

definition Math_sqrt :: "real \<Rightarrow> number" where
  "Math_sqrt x = (if x < 0 then None else Some (sqrt x))"

definition per_pixel :: "real \<Rightarrow> 8 word list \<Rightarrow> number" where
  "per_pixel x data = (if length data = 0 then None else Some (x / (real (length data) / 4)))"

text \<open>
  \<^verbatim>\<open>calculateBrightness\<close>: the loop of lines 63 to 66 with \<^verbatim>\<open>sum\<close> as its
  accumulator, then line 67.
\<close>

function brightness_loop :: "8 word list \<Rightarrow> nat \<Rightarrow> number \<Rightarrow> number" where
  "brightness_loop data i acc =
     (if i < length data
      then brightness_loop data (i + 4)
             (do { s \<leftarrow> acc; l \<leftarrow> luminance data (int i); Some (s + l) })
      else acc)"
  by pat_completeness auto
termination
  by (relation "measure (\<lambda>(data, i, acc). length data - i)") auto

definition calculateBrightness :: "8 word list \<Rightarrow> number" where
  "calculateBrightness data =
     do {
       s \<leftarrow> brightness_loop data 0 (Some 0);
       mean \<leftarrow> per_pixel s data;
       Some (Math_round mean)
     }"

text \<open>\<^verbatim>\<open>calculateContrast\<close>: the loop of lines 75 to 78, then lines 80 and 81.\<close>

function contrast_loop :: "8 word list \<Rightarrow> number \<Rightarrow> nat \<Rightarrow> number \<Rightarrow> number" where
  "contrast_loop data brightness i variance =
     (if i < length data
      then contrast_loop data brightness (i + 4)
             (do {
                v \<leftarrow> variance;
                l \<leftarrow> luminance data (int i);
                b \<leftarrow> brightness;
                Some (v + (l - b) ^ 2)
              })
      else variance)"
  by pat_completeness auto
termination
  by (relation "measure (\<lambda>(data, brightness, i, variance). length data - i)") auto

definition calculateContrast :: "8 word list \<Rightarrow> number" where
  "calculateContrast data =
     (let brightness = calculateBrightness data
      in do {
           variance \<leftarrow> contrast_loop data brightness 0 (Some 0);
           mean \<leftarrow> per_pixel variance data;
           standardDeviation \<leftarrow> Math_sqrt mean;
           Some (Math_round standardDeviation)
         })"

text \<open>\<^verbatim>\<open>getGrayscale\<close>: only \<open>idx\<close> itself is tested against the bounds.\<close>

definition getGrayscale :: "8 word list \<Rightarrow> int \<Rightarrow> number" where
  "getGrayscale data idx =
     (if idx < 0 \<or> idx \<ge> int (length data) then Some 0 else luminance data idx)"

text \<open>
  The body of the inner loop of \<^verbatim>\<open>calculateSharpness\<close>, lines 91 to 111, on the pair
  of \<^verbatim>\<open>sharpnessSum\<close> and \<^verbatim>\<open>count\<close>.
\<close>

definition sobel_gx :: "8 word list \<Rightarrow> int \<Rightarrow> int \<Rightarrow> number" where
  "sobel_gx data width idx =
     do {
       a \<leftarrow> getGrayscale data (idx - width * 4 - 4);
       b \<leftarrow> getGrayscale data (idx - width * 4 + 4);
       c \<leftarrow> getGrayscale data (idx - 4);
       d \<leftarrow> getGrayscale data (idx + 4);
       e \<leftarrow> getGrayscale data (idx + width * 4 - 4);
       f \<leftarrow> getGrayscale data (idx + width * 4 + 4);
       Some (-1 * a + 1 * b + -2 * c + 2 * d + -1 * e + 1 * f)
     }"

definition sobel_gy :: "8 word list \<Rightarrow> int \<Rightarrow> int \<Rightarrow> number" where
  "sobel_gy data width idx =
     do {
       a \<leftarrow> getGrayscale data (idx - width * 4 - 4);
       b \<leftarrow> getGrayscale data (idx - width * 4);
       c \<leftarrow> getGrayscale data (idx - width * 4 + 4);
       d \<leftarrow> getGrayscale data (idx + width * 4 - 4);
       e \<leftarrow> getGrayscale data (idx + width * 4);
       f \<leftarrow> getGrayscale data (idx + width * 4 + 4);
       Some (-1 * a + -2 * b + -1 * c + 1 * d + 2 * e + 1 * f)
     }"

definition sharpness_step ::
  "8 word list \<Rightarrow> nat \<Rightarrow> nat \<Rightarrow> nat \<Rightarrow> number \<times> nat \<Rightarrow> number \<times> nat" where
  "sharpness_step data width y x acc =
     (let idx = (int y * int width + int x) * 4
      in (do {
            sharpnessSum \<leftarrow> fst acc;
            gx \<leftarrow> sobel_gx data (int width) idx;
            gy \<leftarrow> sobel_gy data (int width) idx;
            magnitude \<leftarrow> Math_sqrt (gx * gx + gy * gy);
            Some (sharpnessSum + magnitude)
          },
          snd acc + 1))"

text \<open>
  \<^verbatim>\<open>calculateSharpness\<close>: \<open>y\<close> runs from 1 while below \<open>height - 1\<close>, \<open>x\<close> from 1
  while below \<open>width - 1\<close>; with a dimension of 0 the bound is negative in the source
  and 0 here, and the loop is empty either way. The sums and the square root are exact
  in this reading; \<open>calculateSharpness64\<close> below is the same function with every
  operation rounded to a double.
\<close>

definition calculateSharpness :: "8 word list \<Rightarrow> nat \<Rightarrow> nat \<Rightarrow> number" where
  "calculateSharpness data width height =
     (let (sharpnessSum, count) =
            fold (\<lambda>y. fold (sharpness_step data width y) [1..<width - 1]) [1..<height - 1]
              (Some 0, 0)
      in if count > 0
         then do { s \<leftarrow> sharpnessSum; Some (Math_round (s / real count)) }
         else Some (Math_round 0))"






subsection \<open>The metrics as the specification words them\<close>

text \<open>
  Step 1 of the algorithm: the luma of the \<open>k\<close>-th pixel of the buffer, and of the
  pixel in column \<open>x\<close> of row \<open>y\<close>.
\<close>

definition sample_luma :: "8 word list \<Rightarrow> nat \<Rightarrow> real" where
  "sample_luma data k =
     0.299 * real (unat (data ! (4 * k)))
     + 0.587 * real (unat (data ! (4 * k + 1)))
     + 0.114 * real (unat (data ! (4 * k + 2)))"

definition pixel_luma :: "8 word list \<Rightarrow> nat \<Rightarrow> nat \<Rightarrow> nat \<Rightarrow> real" where
  "pixel_luma data width x y = sample_luma data (y * width + x)"

text \<open>Steps 2 and 3: the rounded mean luma, and the rounded deviation from it.\<close>

definition spec_brightness :: "8 word list \<Rightarrow> real" where
  "spec_brightness data =
     Math_round ((\<Sum>k\<leftarrow>[0..<length data div 4]. sample_luma data k) / real (length data div 4))"

definition spec_contrast :: "8 word list \<Rightarrow> real" where
  "spec_contrast data =
     Math_round (sqrt ((\<Sum>k\<leftarrow>[0..<length data div 4]. (sample_luma data k - spec_brightness data)\<^sup>2)
                       / real (length data div 4)))"

text \<open>
  Step 4: the Sobel kernel, a 3 by 3 kernel laid over the neighbourhood of an interior
  pixel, and the sharpness as the rounded mean of the gradient magnitudes of the
  interior pixels.
\<close>

definition sobel_kernel :: "int list list" where
  "sobel_kernel = [[-1, 0, 1], [-2, 0, 2], [-1, 0, 1]]"

definition convolve3 :: "int list list \<Rightarrow> 8 word list \<Rightarrow> nat \<Rightarrow> nat \<Rightarrow> nat \<Rightarrow> real" where
  "convolve3 K data width x y =
     (\<Sum>j\<leftarrow>[0..<3]. \<Sum>i\<leftarrow>[0..<3].
        real_of_int (K ! j ! i) * pixel_luma data width (x + i - 1) (y + j - 1))"

definition gradient_magnitude :: "8 word list \<Rightarrow> nat \<Rightarrow> nat \<Rightarrow> nat \<Rightarrow> real" where
  "gradient_magnitude data width x y =
     sqrt ((convolve3 sobel_kernel data width x y)\<^sup>2
           + (convolve3 (transpose sobel_kernel) data width x y)\<^sup>2)"

definition spec_sharpness :: "8 word list \<Rightarrow> nat \<Rightarrow> nat \<Rightarrow> real" where
  "spec_sharpness data width height =
     Math_round
       ((\<Sum>y\<leftarrow>[1..<height - 1]. \<Sum>x\<leftarrow>[1..<width - 1]. gradient_magnitude data width x y)
        / real ((width - 2) * (height - 2)))"

text \<open>The image of the given size whose pixels all have the same four samples.\<close>

definition uniform_image :: "nat \<Rightarrow> nat \<Rightarrow> 8 word \<Rightarrow> 8 word \<Rightarrow> 8 word \<Rightarrow> 8 word \<Rightarrow> 8 word list" where
  "uniform_image width height r g b a = concat (replicate (width * height) [r, g, b, a])"

definition luma_of :: "8 word \<Rightarrow> 8 word \<Rightarrow> 8 word \<Rightarrow> real" where
  "luma_of r g b = 0.299 * real (unat r) + 0.587 * real (unat g) + 0.114 * real (unat b)"

section \<open>Sharpness in double precision\<close>

text \<open>
  A JavaScript number is an IEEE 754 double, and each operation on numbers returns the
  exact result rounded to the nearest double, a tie going to the double whose last bit
  is 0. This section translates \<^verbatim>\<open>calculateSharpness\<close> and \<^verbatim>\<open>getGrayscale\<close> a second
  time, with that rounding written out at every operation. Doubles are kept as the
  reals they denote, and \<open>fl x\<close> is the double nearest to \<open>x\<close>. A double has a
  significand of 53 bits: from \<open>2 ^ e\<close> up to \<open>2 ^ (e + 1)\<close> the doubles are the
  multiples of \<open>2 ^ (e - 52)\<close>. The exponent is left unbounded, since the numbers that
  the sharpness computes from bytes stay far from the largest and from the smallest
  normal double. NaN is \<open>None\<close> as before; the infinities and the sign of zero are
  not modelled.
\<close>

text \<open>The nearest integer, a tie going to the even one.\<close>

definition round_ties_even :: "real \<Rightarrow> int" where
  "round_ties_even x =
     (let f = \<lfloor>x\<rfloor>
      in if x - real_of_int f < 1 / 2 then f
         else if 1 / 2 < x - real_of_int f then f + 1
         else if even f then f else f + 1)"

text \<open>
  The exponent \<open>e\<close> of a number other than 0, for which \<open>2 ^ e \<le> \<bar>x\<bar> < 2 ^ (e + 1)\<close>,
  and the distance between the doubles of that exponent.
\<close>

definition binade :: "real \<Rightarrow> int" where
  "binade x = \<lfloor>log 2 \<bar>x\<bar>\<rfloor>"

definition ulp :: "real \<Rightarrow> real" where
  "ulp x = 2 powi (binade x - 52)"

definition fl :: "real \<Rightarrow> real" where
  "fl x =
     (if x = 0 then 0
      else sgn x * (real_of_int (round_ties_even (\<bar>x\<bar> / ulp x)) * ulp x))"

text \<open>The operators \<^verbatim>\<open>+\<close>, \<^verbatim>\<open>*\<close> and \<^verbatim>\<open>/\<close> on doubles.\<close>

definition fadd :: "real \<Rightarrow> real \<Rightarrow> real" where
  "fadd a b = fl (a + b)"

definition fmul :: "real \<Rightarrow> real \<Rightarrow> real" where
  "fmul a b = fl (a * b)"

definition fdiv :: "real \<Rightarrow> real \<Rightarrow> real" where
  "fdiv a b = fl (a / b)"

text \<open>
  \<^verbatim>\<open>Math.sqrt\<close>, NaN below zero. It is taken to return the correctly rounded square
  root, which is what IEEE 754 requires of the operation and what the engines compute.
\<close>

definition Math_sqrt64 :: "real \<Rightarrow> number" where
  "Math_sqrt64 x = (if x < 0 then None else Some (fl (sqrt x)))"

text \<open>
  \<^verbatim>\<open>getGrayscale\<close>, lines 119 to 122. The literals \<^verbatim>\<open>0.299\<close>, \<^verbatim>\<open>0.587\<close> and \<^verbatim>\<open>0.114\<close> are
  the doubles nearest to these decimals, a byte is a double as it stands, and the two
  additions are made from left to right.
\<close>

definition luminance64 :: "8 word list \<Rightarrow> int \<Rightarrow> number" where
  "luminance64 data i =
     do {
       r \<leftarrow> element data i;
       g \<leftarrow> element data (i + 1);
       b \<leftarrow> element data (i + 2);
       Some (fadd (fadd (fmul (fl 0.299) r) (fmul (fl 0.587) g)) (fmul (fl 0.114) b))
     }"

definition getGrayscale64 :: "8 word list \<Rightarrow> int \<Rightarrow> number" where
  "getGrayscale64 data idx =
     (if idx < 0 \<or> idx \<ge> int (length data) then Some 0 else luminance64 data idx)"

text \<open>
  The two gradients of lines 94 to 108. Each is a chain of six products added from left
  to right, so the first sum is rounded before the third product is added to it, and so
  on.
\<close>

definition sobel_gx64 :: "8 word list \<Rightarrow> int \<Rightarrow> int \<Rightarrow> number" where
  "sobel_gx64 data width idx =
     do {
       a \<leftarrow> getGrayscale64 data (idx - width * 4 - 4);
       b \<leftarrow> getGrayscale64 data (idx - width * 4 + 4);
       c \<leftarrow> getGrayscale64 data (idx - 4);
       d \<leftarrow> getGrayscale64 data (idx + 4);
       e \<leftarrow> getGrayscale64 data (idx + width * 4 - 4);
       f \<leftarrow> getGrayscale64 data (idx + width * 4 + 4);
       Some (fadd (fadd (fadd (fadd (fadd (fmul (- 1) a) (fmul 1 b)) (fmul (- 2) c)) (fmul 2 d))
                    (fmul (- 1) e))
               (fmul 1 f))
     }"

definition sobel_gy64 :: "8 word list \<Rightarrow> int \<Rightarrow> int \<Rightarrow> number" where
  "sobel_gy64 data width idx =
     do {
       a \<leftarrow> getGrayscale64 data (idx - width * 4 - 4);
       b \<leftarrow> getGrayscale64 data (idx - width * 4);
       c \<leftarrow> getGrayscale64 data (idx - width * 4 + 4);
       d \<leftarrow> getGrayscale64 data (idx + width * 4 - 4);
       e \<leftarrow> getGrayscale64 data (idx + width * 4);
       f \<leftarrow> getGrayscale64 data (idx + width * 4 + 4);
       Some (fadd (fadd (fadd (fadd (fadd (fmul (- 1) a) (fmul (- 2) b)) (fmul (- 1) c)) (fmul 1 d))
                    (fmul 2 e))
               (fmul 1 f))
     }"

text \<open>
  The body of the inner loop, lines 91 to 111, and \<^verbatim>\<open>calculateSharpness\<close> itself.
  \<^verbatim>\<open>count\<close> is an integer far below \<open>2 ^ 53\<close> and is held exactly.
\<close>

definition sharpness_step64 ::
  "8 word list \<Rightarrow> nat \<Rightarrow> nat \<Rightarrow> nat \<Rightarrow> number \<times> nat \<Rightarrow> number \<times> nat" where
  "sharpness_step64 data width y x acc =
     (let idx = (int y * int width + int x) * 4
      in (do {
            sharpnessSum \<leftarrow> fst acc;
            gx \<leftarrow> sobel_gx64 data (int width) idx;
            gy \<leftarrow> sobel_gy64 data (int width) idx;
            magnitude \<leftarrow> Math_sqrt64 (fadd (fmul gx gx) (fmul gy gy));
            Some (fadd sharpnessSum magnitude)
          },
          snd acc + 1))"

definition calculateSharpness64 :: "8 word list \<Rightarrow> nat \<Rightarrow> nat \<Rightarrow> number" where
  "calculateSharpness64 data width height =
     (let (sharpnessSum, count) =
            fold (\<lambda>y. fold (sharpness_step64 data width y) [1..<width - 1]) [1..<height - 1]
              (Some 0, 0)
      in if count > 0
         then do { s \<leftarrow> sharpnessSum; Some (Math_round (fdiv s (real count))) }
         else Some (Math_round 0))"

subsection \<open>The sharpness as the specification words it, in double precision\<close>

text \<open>
  Step 4 of the specification with every operation rounded: the luma of the pixel in
  column \<open>x\<close> of row \<open>y\<close>; a 3 by 3 kernel laid over the neighbourhood of a pixel,
  its nine products added one after the other from the top left, row by row; the
  magnitude of the two gradients; and the mean of the magnitudes of the interior
  pixels, added row by row, then rounded to an integer.
\<close>

definition pixel_luma64 :: "8 word list \<Rightarrow> nat \<Rightarrow> nat \<Rightarrow> nat \<Rightarrow> real" where
  "pixel_luma64 data width x y =
     (let k = y * width + x
      in fadd (fadd (fmul (fl 0.299) (real (unat (data ! (4 * k)))))
                    (fmul (fl 0.587) (real (unat (data ! (4 * k + 1))))))
              (fmul (fl 0.114) (real (unat (data ! (4 * k + 2))))))"

definition convolve64 :: "int list list \<Rightarrow> 8 word list \<Rightarrow> nat \<Rightarrow> nat \<Rightarrow> nat \<Rightarrow> real" where
  "convolve64 K data width x y =
     foldl fadd 0
       (concat (map (\<lambda>j. map (\<lambda>i. fmul (real_of_int (K ! j ! i))
                                   (pixel_luma64 data width (x + i - 1) (y + j - 1)))
                            [0..<3])
                  [0..<3]))"

definition magnitude64 :: "8 word list \<Rightarrow> nat \<Rightarrow> nat \<Rightarrow> nat \<Rightarrow> real" where
  "magnitude64 data width x y =
     (let gx = convolve64 sobel_kernel data width x y;
          gy = convolve64 (transpose sobel_kernel) data width x y
      in fl (sqrt (fadd (fmul gx gx) (fmul gy gy))))"

definition spec_sharpness64 :: "8 word list \<Rightarrow> nat \<Rightarrow> nat \<Rightarrow> real" where
  "spec_sharpness64 data width height =
     Math_round
       (fdiv (foldl fadd 0
                (concat (map (\<lambda>y. map (\<lambda>x. magnitude64 data width x y) [1..<width - 1])
                           [1..<height - 1])))
             (real ((width - 2) * (height - 2))))"

text \<open>A 3 by 3 image with two black columns and a column of the colour (0, 9, 3).\<close>

definition tie_image :: "8 word list" where
  "tie_image =
     [0, 0, 0, 255, 0, 0, 0, 255, 0, 9, 3, 255,
      0, 0, 0, 255, 0, 0, 0, 255, 0, 9, 3, 255,
      0, 0, 0, 255, 0, 0, 0, 255, 0, 9, 3, 255]"

text \<open>A 4 by 3 image of three colours, with two interior pixels.\<close>

definition patch_image :: "8 word list" where
  "patch_image =
     [50, 0, 3, 255, 50, 0, 3, 255, 50, 0, 3, 255, 50, 0, 3, 255,
      0, 0, 0, 255, 0, 0, 0, 255, 100, 200, 128, 255, 0, 0, 0, 255,
      0, 0, 0, 255, 0, 0, 0, 255, 0, 0, 0, 255, 50, 0, 3, 255]"

section \<open>The analysis job poller\<close>

text \<open>
  \<^verbatim>\<open>src/pages/EquipmentScanner.tsx\<close>. The interfaces of the page become records; a field
  keeps its name unless two interfaces share it or HOL already uses it.
\<close>

record equipment_item =
  equipment_type :: string
  weight :: "string option"
  description :: string
  condition :: string
  suggested_asset_tag :: string
  location_in_image :: string

text \<open>\<^verbatim>\<open>AnalysisResultResponse.result\<close>.\<close>

record analysis_payload =
  asset_tags :: "string list"
  equipment :: "equipment_item list"
  image_quality :: string
  total_items :: nat
  result_recommendations :: string
  result_confidence_score :: real

record analysis_result_response =
  response_id :: string
  asset_tag :: "string option"
  original_filename :: string
  status :: string
  result :: analysis_payload
  error_message :: "string option"
  confidence_score :: real
  created_at :: string
  completed_at :: string
  processing_time :: real

text \<open>\<^verbatim>\<open>AnalysisJobResponse\<close>, the body that answers a submission.\<close>

record analysis_job_response =
  job_id :: string
  job_status :: string
  job_message :: string

text \<open>The state \<^verbatim>\<open>analysisMetadata\<close>.\<close>

record analysis_metadata =
  imageQuality :: string
  totalItems :: nat
  metaRecommendations :: string
  confidenceScore :: real
  processingTime :: real

text \<open>What \<^verbatim>\<open>addAnalysisResult\<close> receives: a \<^verbatim>\<open>StoredAnalysisResult\<close> and its summary.\<close>

record analysis_summary =
  summary_item_type :: string
  summary_description :: string
  summary_condition :: string
  summary_confidence :: real
  summary_notes :: string

record stored_analysis_result =
  stored_id :: string
  timestamp :: string
  stored_result :: analysis_summary
  stored_image :: string

text \<open>
  The page's \<^verbatim>\<open>AnalysisResult\<close>: the poller and \<^verbatim>\<open>resetScanner\<close> only ever store
  \<^verbatim>\<open>null\<close> in the state of that type, so its fields are not needed.
\<close>

typedecl analysis_result

text \<open>What the page does to the world outside its own state, in the order it does it.\<close>

datatype effect =
    AnalyzeImage string
  | GetAnalysisResult string
  | SetTimeout nat
  | ToastSuccess string
  | ToastError string
  | ConsoleError string

text \<open>
  The page's state (\<^verbatim>\<open>useState\<close>), then what lives outside the component: the store's
  \<^verbatim>\<open>analysisHistory\<close>, the trace of effects, the variable \<^verbatim>\<open>retries\<close> of the
  closure of \<^verbatim>\<open>pollAnalysisResult\<close>, the pending \<^verbatim>\<open>setTimeout\<close> (its delay in
  milliseconds) and whether the page is still mounted. One timer at most is pending:
  the page starts no scan while another is analyzing. \<^verbatim>\<open>showCamera\<close> is left out:
  the functions modelled here do not touch it.
\<close>

record scanner =
  isAnalyzing :: bool
  analysisResult :: "analysis_result option"
  error :: "string option"
  capturedImage :: "string option"
  imageFileName :: string
  equipmentItems :: "equipment_item list"
  analysisMetadata :: "analysis_metadata option"
  currentJobId :: "string option"
  analysisStatus :: string
  analysisHistory :: "stored_analysis_result list"
  effects :: "effect list"
  retries :: nat
  timer :: "nat option"
  mounted :: bool

text \<open>
  How a call of \<^verbatim>\<open>analysisApi.getAnalysisResult\<close> ends: the promise resolves with the
  response body, or is rejected. axios rejects with an \<^verbatim>\<open>Error\<close> that carries a message
  (no response, or a status outside 2xx); the \<^verbatim>\<open>catch\<close> block also provides for a
  rejection with a value that is not an \<^verbatim>\<open>Error\<close>.
\<close>

datatype thrown = Error string | NotAnError

datatype api_reply = Resolved analysis_result_response | Rejected thrown

datatype job_reply = JobResolved analysis_job_response | JobRejected thrown

text \<open>Template literals print a count in decimal.\<close>

function string_of_nat :: "nat \<Rightarrow> string" where
  "string_of_nat n =
     (if n < 10 then [char_of (48 + n)]
      else string_of_nat (n div 10) @ [char_of (48 + n mod 10)])"
  by pat_completeness auto
termination
  by (relation "measure id") auto

definition maxRetries :: nat where
  "maxRetries = 30"

text \<open>
  The \<^verbatim>\<open>catch\<close> block of \<^verbatim>\<open>checkStatus\<close>, lines 158 to 165.
\<close>

definition catch_block :: "thrown \<Rightarrow> scanner \<Rightarrow> scanner" where
  "catch_block err s =
     (let s = s\<lparr>effects := effects s @ [ConsoleError ''Error checking analysis status:'']\<rparr>;
          errorMessage = (case err of Error message \<Rightarrow> message
                          | NotAnError \<Rightarrow> ''Failed to check analysis status'');
          s = s\<lparr>error := Some errorMessage\<rparr>;
          s = s\<lparr>effects := effects s @ [ToastError errorMessage]\<rparr>;
          s = s\<lparr>isAnalyzing := False\<rparr>
      in s\<lparr>currentJobId := None\<rparr>)"

text \<open>
  One run of \<^verbatim>\<open>checkStatus\<close>, lines 110 to 166. \<open>jobId\<close> and \<open>img\<close> are the
  \<^verbatim>\<open>jobId\<close> and \<^verbatim>\<open>capturedImage\<close> its closure holds; \<open>reply\<close> is how the one call of
  \<^verbatim>\<open>getAnalysisResult\<close> it makes ends. \<^verbatim>\<open>a || b\<close> takes \<open>b\<close> when \<open>a\<close> is
  \<^verbatim>\<open>null\<close> or the empty string. A response has the shape its interface declares, so
  reading \<^verbatim>\<open>result.result\<close> does not throw.
\<close>

definition checkStatus :: "string \<Rightarrow> string option \<Rightarrow> api_reply \<Rightarrow> scanner \<Rightarrow> scanner" where
  "checkStatus jobId img reply s0 =
     (let s = s0\<lparr>effects := effects s0 @ [GetAnalysisResult jobId]\<rparr>
      in case reply of
           Rejected err \<Rightarrow> catch_block err s
         | Resolved res \<Rightarrow>
             (let s = s\<lparr>analysisStatus := status res\<rparr>
              in if status res = ''completed'' then
                   (let s = s\<lparr>equipmentItems := equipment (result res)\<rparr>;
                        s = s\<lparr>analysisMetadata := Some \<lparr>
                              imageQuality = image_quality (result res),
                              totalItems = total_items (result res),
                              metaRecommendations = result_recommendations (result res),
                              confidenceScore = result_confidence_score (result res),
                              processingTime = processing_time res\<rparr>\<rparr>;
                        s = s\<lparr>analysisHistory := analysisHistory s @ [\<lparr>
                              stored_id = response_id res,
                              timestamp = created_at res,
                              stored_result = \<lparr>
                                summary_item_type =
                                  string_of_nat (total_items (result res)) @ '' Equipment Items'',
                                summary_description =
                                  ''Detected '' @ string_of_nat (length (equipment (result res)))
                                    @ '' equipment items'',
                                summary_condition = ''Analysis Complete'',
                                summary_confidence = result_confidence_score (result res),
                                summary_notes = result_recommendations (result res)\<rparr>,
                              stored_image = (case img of None \<Rightarrow> [] | Some i \<Rightarrow> i)\<rparr>]\<rparr>;
                        s = s\<lparr>effects := effects s @ [ToastSuccess ''Equipment analysis completed!'']\<rparr>;
                        s = s\<lparr>isAnalyzing := False\<rparr>
                    in s\<lparr>currentJobId := None\<rparr>)
                 else if status res = ''failed'' then
                   catch_block
                     (Error (case error_message res of None \<Rightarrow> ''Analysis failed''
                             | Some m \<Rightarrow> if m = [] then ''Analysis failed'' else m)) s
                 else if status res = ''pending'' \<or> status res = ''processing'' then
                   (if retries s < maxRetries then
                      (let s = s\<lparr>retries := retries s + 1\<rparr>
                       in s\<lparr>timer := Some 2000, effects := effects s @ [SetTimeout 2000]\<rparr>)
                    else catch_block (Error ''Analysis timed out. Please try again.'') s)
                 else s))"

text \<open>
  \<^verbatim>\<open>pollAnalysisResult\<close>, lines 106 to 169: \<^verbatim>\<open>retries\<close> starts at 0 and the first
  check is made at once.
\<close>

definition pollAnalysisResult :: "string \<Rightarrow> string option \<Rightarrow> api_reply \<Rightarrow> scanner \<Rightarrow> scanner" where
  "pollAnalysisResult jobId img reply s = checkStatus jobId img reply (s\<lparr>retries := 0\<rparr>)"

text \<open>
  \<^verbatim>\<open>analyzeImage\<close>, lines 172 to 200. It awaits \<^verbatim>\<open>pollAnalysisResult\<close>, which
  returns when the first check has run; the later checks belong to the timers. The
  closure of \<^verbatim>\<open>pollAnalysisResult\<close> was made by the render before this call, so the
  \<^verbatim>\<open>capturedImage\<close> it holds is the one of the state the call starts in.
\<close>

definition analyzeImage :: "string \<Rightarrow> string \<Rightarrow> job_reply \<Rightarrow> api_reply \<Rightarrow> scanner \<Rightarrow> scanner" where
  "analyzeImage imageData fileName jobReply reply s0 =
     (let s = s0\<lparr>isAnalyzing := True\<rparr>;
          s = s\<lparr>error := None\<rparr>;
          s = s\<lparr>equipmentItems := []\<rparr>;
          s = s\<lparr>analysisMetadata := None\<rparr>;
          s = s\<lparr>analysisResult := None\<rparr>;
          s = s\<lparr>capturedImage := Some (''data:image/jpeg;base64,'' @ imageData)\<rparr>;
          s = s\<lparr>imageFileName := fileName\<rparr>;
          s = s\<lparr>analysisStatus := ''pending''\<rparr>;
          s = s\<lparr>effects := effects s @ [AnalyzeImage imageData]\<rparr>
      in case jobReply of
           JobResolved jobResponse \<Rightarrow>
             (let s = s\<lparr>currentJobId := Some (job_id jobResponse)\<rparr>;
                  s = s\<lparr>effects := effects s
                        @ [ToastSuccess ''Analysis job created. Processing image...'']\<rparr>
              in pollAnalysisResult (job_id jobResponse) (capturedImage s0) reply s)
         | JobRejected err \<Rightarrow>
             (let s = s\<lparr>effects := effects s @ [ConsoleError ''Analysis error:'']\<rparr>;
                  errorMessage = (case err of Error message \<Rightarrow> message
                                  | NotAnError \<Rightarrow> ''Failed to analyze image'');
                  s = s\<lparr>error := Some errorMessage\<rparr>;
                  s = s\<lparr>effects := effects s @ [ToastError errorMessage]\<rparr>;
                  s = s\<lparr>isAnalyzing := False\<rparr>
              in s\<lparr>currentJobId := None\<rparr>))"

text \<open>The page as it is first rendered: every \<^verbatim>\<open>useState\<close> at its initial value.\<close>

definition initial_scanner :: scanner where
  "initial_scanner = \<lparr>
     isAnalyzing = False, analysisResult = None, error = None, capturedImage = None,
     imageFileName = [], equipmentItems = [], analysisMetadata = None, currentJobId = None,
     analysisStatus = [], analysisHistory = [], effects = [], retries = 0, timer = None,
     mounted = True\<rparr>"

text \<open>\<^verbatim>\<open>resetScanner\<close>, lines 225 to 230.\<close>

definition resetScanner :: "scanner \<Rightarrow> scanner" where
  "resetScanner s =
     s\<lparr>analysisResult := None, error := None, capturedImage := None, imageFileName := []\<rparr>"

text \<open>
  The page renders a button bound to \<^verbatim>\<open>resetScanner\<close> in two places only: in the
  error alert, under \<^verbatim>\<open>error &&\<close> (an empty string counts as no error), and in the
  results panel, under \<^verbatim>\<open>analysisResult && !isAnalyzing\<close>.
\<close>

definition reset_offered :: "scanner \<Rightarrow> bool" where
  "reset_offered s \<longleftrightarrow>
     mounted s \<and> ((case error s of None \<Rightarrow> False | Some m \<Rightarrow> m \<noteq> [])
        \<or> (analysisResult s \<noteq> None \<and> \<not> isAnalyzing s))"

text \<open>
  React drops the state updates of a component that is no longer mounted: of what a
  callback did, the page's own state is as it was before, and the rest stays.
\<close>

definition drop_state_updates :: "scanner \<Rightarrow> scanner \<Rightarrow> scanner" where
  "drop_state_updates before after =
     after\<lparr>isAnalyzing := isAnalyzing before, analysisResult := analysisResult before,
       error := error before, capturedImage := capturedImage before,
       imageFileName := imageFileName before, equipmentItems := equipmentItems before,
       analysisMetadata := analysisMetadata before, currentJobId := currentJobId before,
       analysisStatus := analysisStatus before\<rparr>"

text \<open>
  What can happen to a page with a poll under way. The pending timer fires and
  \<^verbatim>\<open>checkStatus\<close> runs again, its call of the API ending in the given reply; without a
  pending timer nothing runs. The component registers no cleanup (it has no
  \<^verbatim>\<open>useEffect\<close>, and the repository never calls \<^verbatim>\<open>clearTimeout\<close>), so the timer
  fires whether the page is mounted or not; on a page that was left, the calls of the
  API, of \<^verbatim>\<open>toast\<close>, of \<^verbatim>\<open>console.error\<close>, of \<^verbatim>\<open>setTimeout\<close> and of the store's
  \<^verbatim>\<open>addAnalysisResult\<close> are made all the same, and only the state updates are lost.
  The user presses a reset button, if the page offers one. The user leaves the page.
\<close>

datatype event = TimerFires api_reply | ResetScanner | LeavePage

fun step :: "string \<Rightarrow> string option \<Rightarrow> event \<Rightarrow> scanner \<Rightarrow> scanner" where
  "step jobId img (TimerFires reply) s =
     (case timer s of None \<Rightarrow> s
      | Some delay \<Rightarrow>
          (let s' = checkStatus jobId img reply (s\<lparr>timer := None\<rparr>)
           in if mounted s then s' else drop_state_updates s s'))"
| "step jobId img ResetScanner s = (if reset_offered s then resetScanner s else s)"
| "step jobId img LeavePage s = s\<lparr>mounted := False\<rparr>"

text \<open>The events that are the poll's own.\<close>

fun is_timer_event :: "event \<Rightarrow> bool" where
  "is_timer_event (TimerFires reply) = True"
| "is_timer_event e = False"

text \<open>The number of status checks issued so far, and the delays of the timers set so far.\<close>

fun is_check :: "effect \<Rightarrow> bool" where
  "is_check (GetAnalysisResult jobId) = True"
| "is_check e = False"

fun delay_of :: "effect \<Rightarrow> nat list" where
  "delay_of (SetTimeout d) = [d]"
| "delay_of e = []"

definition status_checks :: "scanner \<Rightarrow> nat" where
  "status_checks s = length (filter is_check (effects s))"

definition timeouts :: "scanner \<Rightarrow> nat list" where
  "timeouts s = concat (map delay_of (effects s))"

text \<open>
  The timer loop: as long as a timer is pending it fires and \<^verbatim>\<open>checkStatus\<close> runs.
  \<open>replies k\<close> is how the status check made after \<open>k\<close> earlier ones ends.
\<close>

function run_timers :: "string \<Rightarrow> string option \<Rightarrow> (nat \<Rightarrow> api_reply) \<Rightarrow> scanner \<Rightarrow> scanner" where
  "run_timers jobId img replies s =
     (case timer s of None \<Rightarrow> s
      | Some delay \<Rightarrow>
          run_timers jobId img replies
            (checkStatus jobId img (replies (status_checks s)) (s\<lparr>timer := None\<rparr>)))"
  by pat_completeness auto
termination
proof (relation "measure (\<lambda>(jobId, img, replies, s::scanner).
    case timer s of None \<Rightarrow> 0 | Some d \<Rightarrow> Suc (Suc maxRetries - retries s))")
  show "wf (measure (\<lambda>(jobId, img, replies, s::scanner).
    case timer s of None \<Rightarrow> 0 | Some d \<Rightarrow> Suc (Suc maxRetries - retries s)))"
    by simp
next
  fix jobId img replies delay and s :: scanner
  assume "timer s = Some delay"
  then show "((jobId, img, replies,
        checkStatus jobId img (replies (status_checks s)) (s\<lparr>timer := None\<rparr>)),
       (jobId, img, replies, s))
      \<in> measure (\<lambda>(jobId, img, replies, s::scanner).
          case timer s of None \<Rightarrow> 0 | Some d \<Rightarrow> Suc (Suc maxRetries - retries s))"
    by (cases "replies (status_checks s)")
       (auto simp add: checkStatus_def catch_block_def Let_def maxRetries_def)
qed

text \<open>A whole poll: the first check, then the timers until none is pending.\<close>

definition poll :: "string \<Rightarrow> string option \<Rightarrow> (nat \<Rightarrow> api_reply) \<Rightarrow> scanner \<Rightarrow> scanner" where
  "poll jobId img replies s =
     run_timers jobId img replies
       (pollAnalysisResult jobId img (replies (status_checks s)) s)"

subsection \<open>The words of the specification about replies\<close>

text \<open>A status check answered with the given status, and one answered "not ready yet".\<close>

definition has_status :: "api_reply \<Rightarrow> string \<Rightarrow> bool" where
  "has_status reply st = (case reply of Resolved res \<Rightarrow> status res = st | Rejected err \<Rightarrow> False)"

definition waiting :: "api_reply \<Rightarrow> bool" where
  "waiting reply \<longleftrightarrow> has_status reply ''pending'' \<or> has_status reply ''processing''"

text \<open>
  What a poll leaves outside the page (the analysis history of the store, the calls
  made, its retry counter and its pending timer), and the page's own state.
\<close>

definition outside_view ::
  "scanner \<Rightarrow> stored_analysis_result list \<times> effect list \<times> nat \<times> nat option" where
  "outside_view s = (analysisHistory s, effects s, retries s, timer s)"

definition page_view ::
  "scanner \<Rightarrow> bool \<times> analysis_result option \<times> string option \<times> string option \<times> string
     \<times> equipment_item list \<times> analysis_metadata option \<times> string option \<times> string" where
  "page_view s = (isAnalyzing s, analysisResult s, error s, capturedImage s, imageFileName s,
     equipmentItems s, analysisMetadata s, currentJobId s, analysisStatus s)"

text \<open>
  While a timer is pending the page shows no error, and it never has an analysis
  result to show: this holds when \<^verbatim>\<open>analyzeImage\<close> returns and every event keeps it.
\<close>

definition no_reset_while_polling :: "scanner \<Rightarrow> bool" where
  "no_reset_while_polling s \<longleftrightarrow>
     analysisResult s = None \<and> (timer s \<noteq> None \<longrightarrow> error s = None)"

text \<open>Sample replies and a scan whose first check found the job still pending.\<close>

definition sample_payload :: analysis_payload where
  "sample_payload = \<lparr>asset_tags = [''GYM-0042''], equipment = [\<lparr>equipment_type = ''dumbbell'',
     weight = Some ''20kg'', description = ''Hex dumbbell'', condition = ''Good'',
     suggested_asset_tag = ''GYM-0042'', location_in_image = ''center''\<rparr>],
     image_quality = ''good'', total_items = 1, result_recommendations = ''None'',
     result_confidence_score = 1\<rparr>"

definition sample_response :: "string \<Rightarrow> analysis_result_response" where
  "sample_response st = \<lparr>response_id = ''job-1'', asset_tag = None,
     original_filename = ''photo.jpg'', status = st, result = sample_payload,
     error_message = None, confidence_score = 1, created_at = ''2024-01-01T00:00:00Z'',
     completed_at = ''2024-01-01T00:00:08Z'', processing_time = 8\<rparr>"

definition always_processing :: "nat \<Rightarrow> api_reply" where
  "always_processing k = Resolved (sample_response ''processing'')"

text \<open>The replies of a list in turn; the last one again to any later check.\<close>

definition script :: "api_reply list \<Rightarrow> nat \<Rightarrow> api_reply" where
  "script rs k = (if k < length rs then rs ! k else last rs)"

text \<open>
  The state in which \<^verbatim>\<open>analyzeImage\<close> calls \<^verbatim>\<open>pollAnalysisResult\<close> on a fresh
  page, and the state it leaves when the first check finds the job pending.
\<close>

definition job_created :: scanner where
  "job_created = initial_scanner\<lparr>isAnalyzing := True,
     capturedImage := Some ''data:image/jpeg;base64,/9j/4AAQ'', imageFileName := ''photo.jpg'',
     currentJobId := Some ''job-1'', analysisStatus := ''pending'',
     effects := [AnalyzeImage ''/9j/4AAQ'',
       ToastSuccess ''Analysis job created. Processing image...'']\<rparr>"

definition scan_in_progress :: scanner where
  "scan_in_progress =
     analyzeImage ''/9j/4AAQ'' ''photo.jpg''
       (JobResolved \<lparr>job_id = ''job-1'', job_status = ''pending'', job_message = ''queued''\<rparr>)
       (Resolved (sample_response ''pending'')) initial_scanner"

section \<open>Properties of the scoring\<close>

lemma msg_distinct:
  "msg_optimal \<noteq> msg_increase_lighting" "msg_optimal \<noteq> msg_reduce_lighting"
  "msg_optimal \<noteq> msg_improve_contrast" "msg_optimal \<noteq> msg_hold_steady"
  "msg_optimal \<noteq> msg_move_closer"
  by (simp_all add: msg_optimal_def msg_increase_lighting_def msg_reduce_lighting_def
      msg_improve_contrast_def msg_hold_steady_def msg_move_closer_def)

lemma add_band:
  "(if A then (x::nat) + 3 else if B then x + 2 else if C then x + 1 else x)
     = x + (if A then 3 else if B then 2 else if C then 1 else 0)"
  by simp

lemma qualityScore_bands:
  "qualityScore b c s p = brightness_band b + contrast_band c + sharpness_band s + resolution_band p"
  unfolding qualityScore_def Let_def add_band
    brightness_band_def contrast_band_def sharpness_band_def resolution_band_def
  by (simp only: add_0)

lemma band_bounds:
  "brightness_band b \<le> 3" "contrast_band c \<le> 3" "sharpness_band s \<le> 3" "resolution_band p \<le> 3"
  by (simp_all add: brightness_band_def contrast_band_def sharpness_band_def resolution_band_def)

lemma example_1080p_score:
  "qualityScore (Some 150) (Some 65) (Some 20) (Some (1920 * 1080)) = 3 + 3 + 3 + 3"
  by (simp add: qualityScore_def num_ge_def num_le_def Let_def)

lemma example_1080p_recommendations:
  "generateRecommendations (Some 150) (Some 65) (Some 20) (Some (1920 * 1080)) = [msg_optimal]"
  by (simp add: generateRecommendations_def num_lt_def num_gt_def Let_def)

text \<open>
  C7. For every tuple of brightness, contrast, sharpness and pixel count (NaN included),
  the score that \<^verbatim>\<open>determineQuality\<close> accumulates is the sum of the four banded
  sub-scores, each between 0 and 3, so the total is between 0 and 12; the tier is
  excellent exactly when the score is at least 10, good exactly when it is 7 to 9, fair
  exactly when it is 4 to 6, and poor otherwise. A 1920 by 1080 image with brightness
  150, contrast 65 and sharpness 20 scores 3+3+3+3 = 12, is excellent, and its
  recommendations are the single optimal-quality message.
\<close>

theorem determineQuality_banded_tiers:
  "qualityScore b c s p = brightness_band b + contrast_band c + sharpness_band s + resolution_band p
   \<and> brightness_band b \<le> 3 \<and> contrast_band c \<le> 3 \<and> sharpness_band s \<le> 3 \<and> resolution_band p \<le> 3
   \<and> qualityScore b c s p \<le> 12
   \<and> (determineQuality b c s p = excellent) = (10 \<le> qualityScore b c s p)
   \<and> (determineQuality b c s p = good) = (7 \<le> qualityScore b c s p \<and> qualityScore b c s p < 10)
   \<and> (determineQuality b c s p = fair) = (4 \<le> qualityScore b c s p \<and> qualityScore b c s p < 7)
   \<and> (determineQuality b c s p = poor) = (qualityScore b c s p < 4)
   \<and> qualityScore (Some 150) (Some 65) (Some 20) (Some (1920 * 1080)) = 12
   \<and> determineQuality (Some 150) (Some 65) (Some 20) (Some (1920 * 1080)) = excellent
   \<and> generateRecommendations (Some 150) (Some 65) (Some 20) (Some (1920 * 1080)) = [msg_optimal]"
proof -
  have sum: "qualityScore b c s p
      = brightness_band b + contrast_band c + sharpness_band s + resolution_band p"
    by (rule qualityScore_bands)
  have le12: "qualityScore b c s p \<le> 12"
    using band_bounds(1) [of b] band_bounds(2) [of c] band_bounds(3) [of s] band_bounds(4) [of p]
    by (simp add: sum)
  have tiers: "(determineQuality b c s p = excellent) = (10 \<le> qualityScore b c s p)"
    "(determineQuality b c s p = good) = (7 \<le> qualityScore b c s p \<and> qualityScore b c s p < 10)"
    "(determineQuality b c s p = fair) = (4 \<le> qualityScore b c s p \<and> qualityScore b c s p < 7)"
    "(determineQuality b c s p = poor) = (qualityScore b c s p < 4)"
    by (auto simp add: determineQuality_def Let_def)
  have ex: "qualityScore (Some 150) (Some 65) (Some 20) (Some (1920 * 1080)) = 12"
    using example_1080p_score by simp
  then have "determineQuality (Some 150) (Some 65) (Some 20) (Some (1920 * 1080)) = excellent"
    by (simp add: determineQuality_def)
  with sum le12 tiers ex band_bounds example_1080p_recommendations
  show ?thesis by simp
qed

lemma push_issue:
  "(if A then xs @ [m] else xs) = xs @ (if A then [m] else [])"
  "(if A then xs @ [m] else if B then xs @ [m'] else xs)
     = xs @ (if A then [m] else if B then [m'] else [])"
  by simp_all

lemma close_issues:
  "l @ c @ s @ p @ (if l @ c @ s @ p = [] then [m] else [])
     = (if l @ c @ s @ p = [] then [m] else l @ c @ s @ p)"
  by simp

lemma generateRecommendations_issues:
  "generateRecommendations b c s p =
     (let issues = lighting_issue b @ contrast_issue c @ sharpness_issue s @ resolution_issue p
      in if issues = [] then [msg_optimal] else issues)"
  unfolding generateRecommendations_def Let_def push_issue length_0_conv
    lighting_issue_def contrast_issue_def sharpness_issue_def resolution_issue_def
  by (simp only: append_Nil append_assoc close_issues)

lemma issues_empty_iff:
  "lighting_issue b @ contrast_issue c @ sharpness_issue s @ resolution_issue p = []
     \<longleftrightarrow> \<not> deficient b c s p"
  by (simp add: lighting_issue_def contrast_issue_def sharpness_issue_def resolution_issue_def
      deficient_def)

lemma optimal_not_an_issue:
  "msg_optimal \<notin> set (lighting_issue b @ contrast_issue c @ sharpness_issue s @ resolution_issue p)"
  using msg_distinct
  by (simp add: lighting_issue_def contrast_issue_def sharpness_issue_def resolution_issue_def)

text \<open>
  C8. For every tuple of brightness, contrast, sharpness and pixel count, the list of
  \<^verbatim>\<open>generateRecommendations\<close> is not empty; it contains the optimal-quality message
  if and only if none of the deficiency conditions holds (brightness below 80 or above
  220, contrast below 20, sharpness below 5, fewer than 307200 pixels); and when one
  holds, the list is the messages of the deficiencies in the order lighting, contrast,
  sharpness, resolution.
\<close>

theorem generateRecommendations_nonempty_ordered:
  "generateRecommendations b c s p \<noteq> []
   \<and> (msg_optimal \<in> set (generateRecommendations b c s p)) = (\<not> deficient b c s p)
   \<and> (if deficient b c s p
      then generateRecommendations b c s p
             = lighting_issue b @ contrast_issue c @ sharpness_issue s @ resolution_issue p
      else generateRecommendations b c s p = [msg_optimal])"
proof (cases "deficient b c s p")
  case True
  then have ne: "lighting_issue b @ contrast_issue c @ sharpness_issue s @ resolution_issue p \<noteq> []"
    using issues_empty_iff [of b c s p] by simp
  then have eq: "generateRecommendations b c s p
      = lighting_issue b @ contrast_issue c @ sharpness_issue s @ resolution_issue p"
    by (simp add: generateRecommendations_issues Let_def)
  have "msg_optimal \<notin> set (generateRecommendations b c s p)"
    unfolding eq by (rule optimal_not_an_issue)
  with True ne eq show ?thesis by simp
next
  case False
  then have "lighting_issue b @ contrast_issue c @ sharpness_issue s @ resolution_issue p = []"
    using issues_empty_iff [of b c s p] by simp
  then have "generateRecommendations b c s p = [msg_optimal]"
    by (simp add: generateRecommendations_issues Let_def)
  with False show ?thesis by simp
qed

theorem generateRecommendations_nonempty_ordered_witness:
  "deficient (Some 50) (Some 65) (Some 20) (Some (320 * 240))
   \<and> generateRecommendations (Some 50) (Some 65) (Some 20) (Some (320 * 240))
       = [msg_increase_lighting, msg_move_closer]
   \<and> msg_optimal \<notin> set (generateRecommendations (Some 50) (Some 65) (Some 20) (Some (320 * 240)))"
proof -
  have d: "deficient (Some 50) (Some 65) (Some 20) (Some (320 * 240))"
    by (simp add: deficient_def num_lt_def)
  have "lighting_issue (Some 50) @ contrast_issue (Some 65) @ sharpness_issue (Some 20)
      @ resolution_issue (Some (320 * 240)) = [msg_increase_lighting, msg_move_closer]"
    by (simp add: lighting_issue_def contrast_issue_def sharpness_issue_def resolution_issue_def
        num_lt_def num_gt_def)
  with d msg_distinct generateRecommendations_nonempty_ordered
    [of "Some 50" "Some 65" "Some 20" "Some (320 * 240)"]
  show ?thesis by simp
qed

section \<open>Properties of the poller\<close>

declare run_timers.simps [simp del] string_of_nat.simps [simp del]

lemma run_timers_None: "timer s = None \<Longrightarrow> run_timers jobId img replies s = s"
  by (simp add: run_timers.simps)

lemma run_timers_Some:
  "timer s = Some d \<Longrightarrow>
   run_timers jobId img replies s =
   run_timers jobId img replies
     (checkStatus jobId img (replies (status_checks s)) (s\<lparr>timer := None\<rparr>))"
  by (subst run_timers.simps) simp

lemma status_checks_append:
  "status_checks (s\<lparr>effects := effects s @ es\<rparr>)
     = status_checks s + status_checks (s\<lparr>effects := es\<rparr>)"
  by (simp add: status_checks_def)

lemma checkStatus_rejected:
  "checkStatus jobId img (Rejected err) s =
     s\<lparr>effects := effects s @ [GetAnalysisResult jobId,
          ConsoleError ''Error checking analysis status:'',
          ToastError (case err of Error message \<Rightarrow> message
                      | NotAnError \<Rightarrow> ''Failed to check analysis status'')],
       error := Some (case err of Error message \<Rightarrow> message
                      | NotAnError \<Rightarrow> ''Failed to check analysis status''),
       isAnalyzing := False, currentJobId := None\<rparr>"
  by (simp add: checkStatus_def catch_block_def Let_def)

lemma checkStatus_waiting:
  assumes "waiting (Resolved res)" and "retries s < maxRetries"
  shows "checkStatus jobId img (Resolved res) s =
     s\<lparr>analysisStatus := status res, retries := retries s + 1, timer := Some 2000,
       effects := effects s @ [GetAnalysisResult jobId, SetTimeout 2000]\<rparr>"
  using assms by (auto simp add: checkStatus_def waiting_def has_status_def Let_def)

lemma checkStatus_timed_out:
  assumes "waiting (Resolved res)" and "\<not> retries s < maxRetries"
  shows "checkStatus jobId img (Resolved res) s =
     s\<lparr>analysisStatus := status res,
       effects := effects s @ [GetAnalysisResult jobId,
          ConsoleError ''Error checking analysis status:'',
          ToastError ''Analysis timed out. Please try again.''],
       error := Some ''Analysis timed out. Please try again.'',
       isAnalyzing := False, currentJobId := None\<rparr>"
  using assms
  by (auto simp add: checkStatus_def catch_block_def waiting_def has_status_def Let_def)

lemma checkStatus_completed:
  assumes "status res = ''completed''"
  shows "checkStatus jobId img (Resolved res) s =
     s\<lparr>analysisStatus := ''completed'',
       equipmentItems := equipment (result res),
       analysisMetadata := Some \<lparr>
         imageQuality = image_quality (result res),
         totalItems = total_items (result res),
         metaRecommendations = result_recommendations (result res),
         confidenceScore = result_confidence_score (result res),
         processingTime = processing_time res\<rparr>,
       analysisHistory := analysisHistory s @ [\<lparr>
         stored_id = response_id res,
         timestamp = created_at res,
         stored_result = \<lparr>
           summary_item_type = string_of_nat (total_items (result res)) @ '' Equipment Items'',
           summary_description =
             ''Detected '' @ string_of_nat (length (equipment (result res))) @ '' equipment items'',
           summary_condition = ''Analysis Complete'',
           summary_confidence = result_confidence_score (result res),
           summary_notes = result_recommendations (result res)\<rparr>,
         stored_image = (case img of None \<Rightarrow> [] | Some i \<Rightarrow> i)\<rparr>],
       effects := effects s @ [GetAnalysisResult jobId, ToastSuccess ''Equipment analysis completed!''],
       isAnalyzing := False, currentJobId := None\<rparr>"
  using assms by (simp add: checkStatus_def Let_def)

lemma checkStatus_unknown:
  assumes "status res \<notin> {''pending'', ''processing'', ''completed'', ''failed''}"
  shows "checkStatus jobId img (Resolved res) s =
     s\<lparr>analysisStatus := status res, effects := effects s @ [GetAnalysisResult jobId]\<rparr>"
  using assms by (simp add: checkStatus_def Let_def)

lemma checkStatus_settles:
  assumes "timer s = None" and "\<not> (waiting reply \<and> retries s < maxRetries)"
  shows "timer (checkStatus jobId img reply s) = None"
proof (cases reply)
  case (Rejected err)
  with assms show ?thesis by (simp add: checkStatus_rejected)
next
  case (Resolved res)
  with assms show ?thesis
    by (auto simp add: checkStatus_def catch_block_def waiting_def has_status_def Let_def)
qed

text \<open>
  With a timer pending, \<open>n\<close> replies of "not ready" within the retry budget and then a
  reply that settles the poll (or the budget used up): the timers run \<open>n\<close> waiting
  checks, each followed by a new timer, and then the settling check.
\<close>

lemma run_timers_prefix:
  assumes "timer s = Some d"
    and "\<forall>i<n. waiting (replies (status_checks s + i))"
    and "retries s + n \<le> maxRetries"
    and "retries s + n = maxRetries \<or> \<not> waiting (replies (status_checks s + n))"
  shows "\<exists>a. run_timers jobId img replies s =
     checkStatus jobId img (replies (status_checks s + n))
       (s\<lparr>analysisStatus := a, retries := retries s + n, timer := None,
          effects := effects s
            @ concat (replicate n [GetAnalysisResult jobId, SetTimeout 2000])\<rparr>)"
  using assms
proof (induction n arbitrary: s d)
  case 0
  let ?t = "s\<lparr>timer := None\<rparr>"
  let ?u = "checkStatus jobId img (replies (status_checks s)) ?t"
  have "\<not> (waiting (replies (status_checks s)) \<and> retries ?t < maxRetries)"
    using "0.prems" by auto
  then have "timer ?u = None"
    by (intro checkStatus_settles) simp_all
  then have "run_timers jobId img replies ?u = ?u"
    by (rule run_timers_None)
  then have "run_timers jobId img replies s = ?u"
    using "0.prems"(1) by (simp add: run_timers_Some)
  moreover have "?t = s\<lparr>analysisStatus := analysisStatus s, retries := retries s + 0,
      timer := None, effects := effects s
        @ concat (replicate 0 [GetAnalysisResult jobId, SetTimeout 2000])\<rparr>"
    by simp
  ultimately show ?case
    by (metis add.right_neutral)
next
  case (Suc n)
  from Suc.prems(2) have w0: "waiting (replies (status_checks s))"
    by (metis add.right_neutral zero_less_Suc)
  then obtain res where res: "replies (status_checks s) = Resolved res"
    by (cases "replies (status_checks s)") (auto simp add: waiting_def has_status_def)
  have r: "retries s < maxRetries"
    using Suc.prems(3) by simp
  define s1 where "s1 = s\<lparr>analysisStatus := status res, retries := retries s + 1,
      timer := Some 2000, effects := effects s @ [GetAnalysisResult jobId, SetTimeout 2000]\<rparr>"
  have step1: "checkStatus jobId img (replies (status_checks s)) (s\<lparr>timer := None\<rparr>) = s1"
    using w0 r unfolding res s1_def by (subst checkStatus_waiting) simp_all
  have run1: "run_timers jobId img replies s = run_timers jobId img replies s1"
    using Suc.prems(1) step1 by (simp add: run_timers_Some)
  have sc1: "status_checks s1 = Suc (status_checks s)"
    by (simp add: s1_def status_checks_def)
  have rt1: "retries s1 = Suc (retries s)"
    by (simp add: s1_def)
  have "\<exists>a. run_timers jobId img replies s1 =
     checkStatus jobId img (replies (status_checks s1 + n))
       (s1\<lparr>analysisStatus := a, retries := retries s1 + n, timer := None,
          effects := effects s1
            @ concat (replicate n [GetAnalysisResult jobId, SetTimeout 2000])\<rparr>)"
  proof (rule Suc.IH)
    show "timer s1 = Some 2000" by (simp add: s1_def)
    show "\<forall>i<n. waiting (replies (status_checks s1 + i))"
      using Suc.prems(2) by (auto simp add: sc1)
    show "retries s1 + n \<le> maxRetries"
      using Suc.prems(3) by (simp add: rt1)
    show "retries s1 + n = maxRetries \<or> \<not> waiting (replies (status_checks s1 + n))"
      using Suc.prems(4) by (simp add: rt1 sc1)
  qed
  then obtain a where a: "run_timers jobId img replies s1 =
     checkStatus jobId img (replies (status_checks s1 + n))
       (s1\<lparr>analysisStatus := a, retries := retries s1 + n, timer := None,
          effects := effects s1
            @ concat (replicate n [GetAnalysisResult jobId, SetTimeout 2000])\<rparr>)"
    by blast
  have "s1\<lparr>analysisStatus := a, retries := retries s1 + n, timer := None,
          effects := effects s1
            @ concat (replicate n [GetAnalysisResult jobId, SetTimeout 2000])\<rparr>
      = s\<lparr>analysisStatus := a, retries := retries s + Suc n, timer := None,
          effects := effects s
            @ concat (replicate (Suc n) [GetAnalysisResult jobId, SetTimeout 2000])\<rparr>"
    by (simp add: s1_def)
  with a run1 sc1 show ?case
    by (metis add_Suc_shift)
qed

text \<open>
  The same for a whole poll that starts with no timer pending: \<open>k\<close> checks find the job
  not ready, and the check after them settles the poll.
\<close>

lemma poll_prefix:
  assumes "timer s = None"
    and "\<forall>i<k. waiting (replies (status_checks s + i))"
    and "k \<le> maxRetries"
    and "k = maxRetries \<or> \<not> waiting (replies (status_checks s + k))"
  shows "\<exists>a. poll jobId img replies s =
     checkStatus jobId img (replies (status_checks s + k))
       (s\<lparr>analysisStatus := a, retries := k, timer := None,
          effects := effects s
            @ concat (replicate k [GetAnalysisResult jobId, SetTimeout 2000])\<rparr>)"
proof (cases k)
  case 0
  let ?t = "s\<lparr>retries := 0\<rparr>"
  let ?u = "checkStatus jobId img (replies (status_checks s)) ?t"
  have "\<not> (waiting (replies (status_checks s)) \<and> retries ?t < maxRetries)"
    using assms(4) 0 by (auto simp add: maxRetries_def)
  then have "timer ?u = None"
    using assms(1) by (intro checkStatus_settles) simp_all
  then have "poll jobId img replies s = ?u"
    by (simp add: poll_def pollAnalysisResult_def run_timers_None)
  moreover have "?t = s\<lparr>analysisStatus := analysisStatus s, retries := 0, timer := None,
      effects := effects s @ concat (replicate 0 [GetAnalysisResult jobId, SetTimeout 2000])\<rparr>"
    using assms(1) by simp
  ultimately show ?thesis
    using 0 by (metis add.right_neutral)
next
  case (Suc n)
  from assms(2) Suc have w0: "waiting (replies (status_checks s))"
    by (metis add.right_neutral zero_less_Suc)
  then obtain res where res: "replies (status_checks s) = Resolved res"
    by (cases "replies (status_checks s)") (auto simp add: waiting_def has_status_def)
  define s1 where "s1 = s\<lparr>analysisStatus := status res, retries := 1,
      timer := Some 2000, effects := effects s @ [GetAnalysisResult jobId, SetTimeout 2000]\<rparr>"
  have first: "pollAnalysisResult jobId img (replies (status_checks s)) s = s1"
    using w0 unfolding res s1_def pollAnalysisResult_def
    by (subst checkStatus_waiting) (simp_all add: maxRetries_def)
  have sc1: "status_checks s1 = Suc (status_checks s)"
    by (simp add: s1_def status_checks_def)
  have rt1: "retries s1 = Suc 0"
    by (simp add: s1_def)
  have "\<exists>a. run_timers jobId img replies s1 =
     checkStatus jobId img (replies (status_checks s1 + n))
       (s1\<lparr>analysisStatus := a, retries := retries s1 + n, timer := None,
          effects := effects s1
            @ concat (replicate n [GetAnalysisResult jobId, SetTimeout 2000])\<rparr>)"
  proof (rule run_timers_prefix)
    show "timer s1 = Some 2000" by (simp add: s1_def)
    show "\<forall>i<n. waiting (replies (status_checks s1 + i))"
      using assms(2) Suc by (auto simp add: sc1)
    show "retries s1 + n \<le> maxRetries"
      using assms(3) Suc by (simp add: rt1)
    show "retries s1 + n = maxRetries \<or> \<not> waiting (replies (status_checks s1 + n))"
      using assms(4) Suc by (simp add: rt1 sc1)
  qed
  then obtain a where a: "run_timers jobId img replies s1 =
     checkStatus jobId img (replies (status_checks s1 + n))
       (s1\<lparr>analysisStatus := a, retries := retries s1 + n, timer := None,
          effects := effects s1
            @ concat (replicate n [GetAnalysisResult jobId, SetTimeout 2000])\<rparr>)"
    by blast
  have "s1\<lparr>analysisStatus := a, retries := retries s1 + n, timer := None,
          effects := effects s1
            @ concat (replicate n [GetAnalysisResult jobId, SetTimeout 2000])\<rparr>
      = s\<lparr>analysisStatus := a, retries := k, timer := None,
          effects := effects s
            @ concat (replicate k [GetAnalysisResult jobId, SetTimeout 2000])\<rparr>"
    by (simp add: s1_def Suc)
  with a first sc1 Suc show ?thesis
    unfolding poll_def by (metis add_Suc_shift)
qed

lemma checks_of_rounds:
  "filter is_check (concat (replicate k [GetAnalysisResult jobId, SetTimeout d]))
     = replicate k (GetAnalysisResult jobId)"
  by (induction k) simp_all

lemma delays_of_rounds:
  "concat (map delay_of (concat (replicate k [GetAnalysisResult jobId, SetTimeout d])))
     = replicate k d"
  by (induction k) simp_all

lemma analyzeImage_job_created:
  "analyzeImage ''/9j/4AAQ'' ''photo.jpg''
     (JobResolved \<lparr>job_id = ''job-1'', job_status = ''pending'', job_message = ''queued''\<rparr>)
     reply initial_scanner
   = pollAnalysisResult ''job-1'' None reply job_created"
  by (simp add: analyzeImage_def job_created_def initial_scanner_def Let_def)

lemma scan_in_progress_eq:
  "scan_in_progress = job_created\<lparr>analysisStatus := ''pending'', retries := 1, timer := Some 2000,
     effects := effects job_created @ [GetAnalysisResult ''job-1'', SetTimeout 2000]\<rparr>"
  unfolding scan_in_progress_def analyzeImage_job_created pollAnalysisResult_def
  by (subst checkStatus_waiting)
     (simp_all add: waiting_def has_status_def sample_response_def maxRetries_def)

text \<open>The poll of a job that is never ready.\<close>

lemma poll_never_ready:
  assumes "\<forall>k. waiting (replies k)" and "timer s = None"
  shows "\<exists>a. poll jobId img replies s =
     s\<lparr>analysisStatus := a, retries := 30, timer := None,
       effects := effects s
         @ concat (replicate 30 [GetAnalysisResult jobId, SetTimeout 2000])
         @ [GetAnalysisResult jobId, ConsoleError ''Error checking analysis status:'',
            ToastError ''Analysis timed out. Please try again.''],
       error := Some ''Analysis timed out. Please try again.'',
       isAnalyzing := False, currentJobId := None\<rparr>"
proof -
  have "\<exists>a. poll jobId img replies s =
     checkStatus jobId img (replies (status_checks s + maxRetries))
       (s\<lparr>analysisStatus := a, retries := maxRetries, timer := None,
          effects := effects s
            @ concat (replicate maxRetries [GetAnalysisResult jobId, SetTimeout 2000])\<rparr>)"
    using assms by (intro poll_prefix) simp_all
  then obtain a where a: "poll jobId img replies s =
     checkStatus jobId img (replies (status_checks s + maxRetries))
       (s\<lparr>analysisStatus := a, retries := maxRetries, timer := None,
          effects := effects s
            @ concat (replicate maxRetries [GetAnalysisResult jobId, SetTimeout 2000])\<rparr>)"
    by blast
  from assms(1) obtain res where res: "replies (status_checks s + maxRetries) = Resolved res"
    and w: "waiting (Resolved res)"
    by (cases "replies (status_checks s + maxRetries)")
       (auto simp add: waiting_def has_status_def dest: spec [of _ "status_checks s + maxRetries"])
  have "poll jobId img replies s =
     s\<lparr>analysisStatus := status res, retries := 30, timer := None,
       effects := effects s
         @ concat (replicate 30 [GetAnalysisResult jobId, SetTimeout 2000])
         @ [GetAnalysisResult jobId, ConsoleError ''Error checking analysis status:'',
            ToastError ''Analysis timed out. Please try again.''],
       error := Some ''Analysis timed out. Please try again.'',
       isAnalyzing := False, currentJobId := None\<rparr>"
    unfolding a res using w by (subst checkStatus_timed_out) (simp_all add: maxRetries_def)
  then show ?thesis
    by blast
qed

text \<open>
  C1, as the code has it. When every status check finds the job pending or processing,
  a poll started with no timer pending makes 31 status checks: the first one and 30
  retries, each set 2000 ms after the check before it (60 s in all). The 31st check
  finds the budget of 30 retries used up and fails the job with the time-out message;
  no timer is left pending, so there is no 32nd check.
\<close>

theorem poll_times_out_on_check_31:
  assumes "\<forall>k. waiting (replies k)" and "timer s = None"
  shows "effects (poll jobId img replies s) =
       effects s @ concat (replicate 30 [GetAnalysisResult jobId, SetTimeout 2000])
         @ [GetAnalysisResult jobId, ConsoleError ''Error checking analysis status:'',
            ToastError ''Analysis timed out. Please try again.'']
     \<and> status_checks (poll jobId img replies s) = status_checks s + 31
     \<and> timeouts (poll jobId img replies s) = timeouts s @ replicate 30 2000
     \<and> error (poll jobId img replies s) = Some ''Analysis timed out. Please try again.''
     \<and> isAnalyzing (poll jobId img replies s) = False
     \<and> currentJobId (poll jobId img replies s) = None
     \<and> timer (poll jobId img replies s) = None
     \<and> run_timers jobId img replies (poll jobId img replies s) = poll jobId img replies s"
proof -
  from poll_never_ready [OF assms] obtain a where
    "poll jobId img replies s =
     s\<lparr>analysisStatus := a, retries := 30, timer := None,
       effects := effects s
         @ concat (replicate 30 [GetAnalysisResult jobId, SetTimeout 2000])
         @ [GetAnalysisResult jobId, ConsoleError ''Error checking analysis status:'',
            ToastError ''Analysis timed out. Please try again.''],
       error := Some ''Analysis timed out. Please try again.'',
       isAnalyzing := False, currentJobId := None\<rparr>"
    by blast
  then show ?thesis
    by (simp add: status_checks_def timeouts_def checks_of_rounds delays_of_rounds
        run_timers_None)
qed

theorem poll_times_out_on_check_31_witness:
  "(\<forall>k. waiting (always_processing k)) \<and> timer job_created = None
   \<and> status_checks (poll ''job-1'' None always_processing job_created) = 31
   \<and> timeouts (poll ''job-1'' None always_processing job_created) = replicate 30 2000
   \<and> error (poll ''job-1'' None always_processing job_created)
       = Some ''Analysis timed out. Please try again.''"
proof -
  have w: "\<forall>k. waiting (always_processing k)"
    by (simp add: always_processing_def waiting_def has_status_def sample_response_def)
  have t: "timer job_created = None"
    by (simp add: job_created_def initial_scanner_def)
  have "status_checks job_created = 0" "timeouts job_created = []"
    by (simp_all add: status_checks_def timeouts_def job_created_def initial_scanner_def)
  with w t poll_times_out_on_check_31 [OF w t, of "''job-1''" None] show ?thesis
    by simp
qed

text \<open>
  The specification's count (exactly 30 checks, never a 31st) fails on the
  job that is processing for ever.
\<close>

theorem poll_thirty_checks_counterexample:
  "status_checks (poll ''job-1'' None always_processing job_created) = 31
   \<and> status_checks (poll ''job-1'' None always_processing job_created) \<noteq> 30"
proof -
  have w: "\<forall>k. waiting (always_processing k)"
    by (simp add: always_processing_def waiting_def has_status_def sample_response_def)
  have t: "timer job_created = None"
    by (simp add: job_created_def initial_scanner_def)
  from poll_never_ready [OF w t] obtain a where
    "poll ''job-1'' None always_processing job_created =
     job_created\<lparr>analysisStatus := a, retries := 30, timer := None,
       effects := effects job_created
         @ concat (replicate 30 [GetAnalysisResult ''job-1'', SetTimeout 2000])
         @ [GetAnalysisResult ''job-1'', ConsoleError ''Error checking analysis status:'',
            ToastError ''Analysis timed out. Please try again.''],
       error := Some ''Analysis timed out. Please try again.'',
       isAnalyzing := False, currentJobId := None\<rparr>"
    by blast
  then have "status_checks (poll ''job-1'' None always_processing job_created) = 31"
    by (simp add: status_checks_def checks_of_rounds job_created_def initial_scanner_def)
  then show ?thesis by simp
qed

text \<open>
  C4. For the replies pending, processing, processing, completed, a poll started with no
  timer pending makes exactly 4 status checks, sets a timer of 2000 ms after each of
  the first three and none after the fourth, and ends completed: the equipment and the
  metadata of the fourth reply are in the page's state and its summary is appended to
  the analysis history.
\<close>

theorem poll_completes_on_fourth_check:
  assumes "timer s = None"
    and "has_status (replies (status_checks s)) ''pending''"
    and "has_status (replies (status_checks s + 1)) ''processing''"
    and "has_status (replies (status_checks s + 2)) ''processing''"
    and "replies (status_checks s + 3) = Resolved res"
    and "status res = ''completed''"
  shows "effects (poll jobId img replies s) =
       effects s @ [GetAnalysisResult jobId, SetTimeout 2000, GetAnalysisResult jobId,
         SetTimeout 2000, GetAnalysisResult jobId, SetTimeout 2000, GetAnalysisResult jobId,
         ToastSuccess ''Equipment analysis completed!'']
     \<and> status_checks (poll jobId img replies s) = status_checks s + 4
     \<and> timeouts (poll jobId img replies s) = timeouts s @ [2000, 2000, 2000]
     \<and> timer (poll jobId img replies s) = None
     \<and> isAnalyzing (poll jobId img replies s) = False
     \<and> error (poll jobId img replies s) = error s
     \<and> analysisStatus (poll jobId img replies s) = ''completed''
     \<and> equipmentItems (poll jobId img replies s) = equipment (result res)
     \<and> analysisMetadata (poll jobId img replies s) = Some \<lparr>
           imageQuality = image_quality (result res),
           totalItems = total_items (result res),
           metaRecommendations = result_recommendations (result res),
           confidenceScore = result_confidence_score (result res),
           processingTime = processing_time res\<rparr>
     \<and> analysisHistory (poll jobId img replies s) = analysisHistory s @ [\<lparr>
           stored_id = response_id res,
           timestamp = created_at res,
           stored_result = \<lparr>
             summary_item_type = string_of_nat (total_items (result res)) @ '' Equipment Items'',
             summary_description =
               ''Detected '' @ string_of_nat (length (equipment (result res)))
                 @ '' equipment items'',
             summary_condition = ''Analysis Complete'',
             summary_confidence = result_confidence_score (result res),
             summary_notes = result_recommendations (result res)\<rparr>,
           stored_image = (case img of None \<Rightarrow> [] | Some i \<Rightarrow> i)\<rparr>]"
proof -
  have pre: "\<forall>i<3. waiting (replies (status_checks s + i))"
  proof (intro allI impI)
    fix i :: nat
    assume "i < 3"
    then have "i = 0 \<or> i = 1 \<or> i = 2" by arith
    with assms(2-4) show "waiting (replies (status_checks s + i))"
      by (auto simp add: waiting_def)
  qed
  have last: "\<not> waiting (replies (status_checks s + 3))"
    using assms(5,6) by (simp add: waiting_def has_status_def)
  have "\<exists>a. poll jobId img replies s =
     checkStatus jobId img (replies (status_checks s + 3))
       (s\<lparr>analysisStatus := a, retries := 3, timer := None,
          effects := effects s
            @ concat (replicate 3 [GetAnalysisResult jobId, SetTimeout 2000])\<rparr>)"
    using assms(1) pre last by (intro poll_prefix) (simp_all add: maxRetries_def)
  then obtain a where "poll jobId img replies s =
     checkStatus jobId img (Resolved res)
       (s\<lparr>analysisStatus := a, retries := 3, timer := None,
          effects := effects s
            @ concat (replicate 3 [GetAnalysisResult jobId, SetTimeout 2000])\<rparr>)"
    using assms(5) by auto
  then show ?thesis
    using assms(1)
    by (simp add: checkStatus_completed [OF assms(6)] status_checks_def timeouts_def
        numeral_3_eq_3)
qed

theorem poll_completes_on_fourth_check_witness:
  "status_checks
     (poll ''job-1'' None
        (script [Resolved (sample_response ''pending''), Resolved (sample_response ''processing''),
           Resolved (sample_response ''processing''), Resolved (sample_response ''completed'')])
        job_created) = 4
   \<and> timeouts
     (poll ''job-1'' None
        (script [Resolved (sample_response ''pending''), Resolved (sample_response ''processing''),
           Resolved (sample_response ''processing''), Resolved (sample_response ''completed'')])
        job_created) = [2000, 2000, 2000]
   \<and> equipmentItems
     (poll ''job-1'' None
        (script [Resolved (sample_response ''pending''), Resolved (sample_response ''processing''),
           Resolved (sample_response ''processing''), Resolved (sample_response ''completed'')])
        job_created) = equipment sample_payload"
proof -
  let ?replies = "script [Resolved (sample_response ''pending''),
    Resolved (sample_response ''processing''), Resolved (sample_response ''processing''),
    Resolved (sample_response ''completed'')]"
  have c: "status_checks job_created = 0" and d: "timeouts job_created = []"
    by (simp_all add: status_checks_def timeouts_def job_created_def initial_scanner_def)
  have "timer job_created = None"
    by (simp add: job_created_def initial_scanner_def)
  moreover have "has_status (?replies (status_checks job_created)) ''pending''"
    "has_status (?replies (status_checks job_created + 1)) ''processing''"
    "has_status (?replies (status_checks job_created + 2)) ''processing''"
    "?replies (status_checks job_created + 3) = Resolved (sample_response ''completed'')"
    "status (sample_response ''completed'') = ''completed''"
    by (simp_all add: c script_def has_status_def sample_response_def)
  ultimately show ?thesis
    using poll_completes_on_fourth_check
      [of job_created ?replies "sample_response ''completed''" "''job-1''" None]
    by (simp add: c d sample_response_def)
qed

text \<open>
  C5. When a status check is rejected with an error (no response, or a status outside
  2xx), whatever number of checks before it found the job not ready, the poll ends at
  once: the job is failed with that error's message, no timer is set, and no further
  status check is made.
\<close>

theorem transport_error_fails_poll:
  assumes "timer s = None"
    and "\<forall>i<k. waiting (replies (status_checks s + i))"
    and "k \<le> maxRetries"
    and "replies (status_checks s + k) = Rejected (Error message)"
  shows "checkStatus jobId img (Rejected (Error message)) s =
       s\<lparr>effects := effects s @ [GetAnalysisResult jobId,
            ConsoleError ''Error checking analysis status:'', ToastError message],
         error := Some message, isAnalyzing := False, currentJobId := None\<rparr>
     \<and> effects (poll jobId img replies s) =
       effects s @ concat (replicate k [GetAnalysisResult jobId, SetTimeout 2000])
         @ [GetAnalysisResult jobId, ConsoleError ''Error checking analysis status:'',
            ToastError message]
     \<and> status_checks (poll jobId img replies s) = status_checks s + k + 1
     \<and> error (poll jobId img replies s) = Some message
     \<and> isAnalyzing (poll jobId img replies s) = False
     \<and> currentJobId (poll jobId img replies s) = None
     \<and> timer (poll jobId img replies s) = None
     \<and> step jobId img (TimerFires reply) (poll jobId img replies s) = poll jobId img replies s"
proof -
  have "\<not> waiting (replies (status_checks s + k))"
    using assms(4) by (simp add: waiting_def has_status_def)
  then have "\<exists>a. poll jobId img replies s =
     checkStatus jobId img (replies (status_checks s + k))
       (s\<lparr>analysisStatus := a, retries := k, timer := None,
          effects := effects s
            @ concat (replicate k [GetAnalysisResult jobId, SetTimeout 2000])\<rparr>)"
    using assms(1-3) by (intro poll_prefix) simp_all
  then obtain a where "poll jobId img replies s =
     checkStatus jobId img (Rejected (Error message))
       (s\<lparr>analysisStatus := a, retries := k, timer := None,
          effects := effects s
            @ concat (replicate k [GetAnalysisResult jobId, SetTimeout 2000])\<rparr>)"
    using assms(4) by auto
  then show ?thesis
    by (simp add: checkStatus_rejected status_checks_def checks_of_rounds)
qed

theorem transport_error_fails_poll_witness:
  "status_checks
     (poll ''job-1'' None
        (script [Resolved (sample_response ''pending''), Resolved (sample_response ''processing''),
           Rejected (Error ''Network Error'')])
        job_created) = 3
   \<and> error
     (poll ''job-1'' None
        (script [Resolved (sample_response ''pending''), Resolved (sample_response ''processing''),
           Rejected (Error ''Network Error'')])
        job_created) = Some ''Network Error''
   \<and> timer
     (poll ''job-1'' None
        (script [Resolved (sample_response ''pending''), Resolved (sample_response ''processing''),
           Rejected (Error ''Network Error'')])
        job_created) = None"
proof -
  let ?replies = "script [Resolved (sample_response ''pending''),
    Resolved (sample_response ''processing''), Rejected (Error ''Network Error'')]"
  have c: "status_checks job_created = 0"
    by (simp add: status_checks_def job_created_def initial_scanner_def)
  have t: "timer job_created = None"
    by (simp add: job_created_def initial_scanner_def)
  have w: "\<forall>i<2. waiting (?replies (status_checks job_created + i))"
  proof (intro allI impI)
    fix i :: nat
    assume "i < 2"
    then have "i = 0 \<or> i = 1" by arith
    then show "waiting (?replies (status_checks job_created + i))"
      by (auto simp add: c script_def waiting_def has_status_def sample_response_def)
  qed
  have r: "?replies (status_checks job_created + 2) = Rejected (Error ''Network Error'')"
    by (simp add: c script_def)
  have "(2::nat) \<le> maxRetries"
    by (simp add: maxRetries_def)
  from transport_error_fails_poll [OF t w this r, of "''job-1''" None] show ?thesis
    by (simp add: c)
qed

text \<open>
  C10. When a status check is answered with a status other than pending, processing,
  completed and failed, \<^verbatim>\<open>checkStatus\<close> only records the call and updates the status
  label. In a poll of a scan under way, whatever number of checks before it found the
  job not ready: no error is raised, no timer is set, the page is still analyzing, and
  nothing of the poll is left to run, so the page stays that way.
\<close>

theorem unknown_status_stalls_poll:
  assumes "timer s = None"
    and "\<forall>i<k. waiting (replies (status_checks s + i))"
    and "k \<le> maxRetries"
    and "replies (status_checks s + k) = Resolved res"
    and "status res \<notin> {''pending'', ''processing'', ''completed'', ''failed''}"
    and "isAnalyzing s"
  shows "checkStatus jobId img (Resolved res) s =
       s\<lparr>analysisStatus := status res, effects := effects s @ [GetAnalysisResult jobId]\<rparr>
     \<and> poll jobId img replies s =
       s\<lparr>analysisStatus := status res, retries := k, timer := None,
         effects := effects s @ concat (replicate k [GetAnalysisResult jobId, SetTimeout 2000])
           @ [GetAnalysisResult jobId]\<rparr>
     \<and> isAnalyzing (poll jobId img replies s)
     \<and> error (poll jobId img replies s) = error s
     \<and> timer (poll jobId img replies s) = None
     \<and> step jobId img (TimerFires reply) (poll jobId img replies s) = poll jobId img replies s
     \<and> run_timers jobId img replies' (poll jobId img replies s) = poll jobId img replies s"
proof -
  have "\<not> waiting (replies (status_checks s + k))"
    using assms(4,5) by (simp add: waiting_def has_status_def)
  then have "\<exists>a. poll jobId img replies s =
     checkStatus jobId img (replies (status_checks s + k))
       (s\<lparr>analysisStatus := a, retries := k, timer := None,
          effects := effects s
            @ concat (replicate k [GetAnalysisResult jobId, SetTimeout 2000])\<rparr>)"
    using assms(1-3) by (intro poll_prefix) simp_all
  then obtain a where "poll jobId img replies s =
     checkStatus jobId img (Resolved res)
       (s\<lparr>analysisStatus := a, retries := k, timer := None,
          effects := effects s
            @ concat (replicate k [GetAnalysisResult jobId, SetTimeout 2000])\<rparr>)"
    using assms(4) by auto
  then have p: "poll jobId img replies s =
       s\<lparr>analysisStatus := status res, retries := k, timer := None,
         effects := effects s @ concat (replicate k [GetAnalysisResult jobId, SetTimeout 2000])
           @ [GetAnalysisResult jobId]\<rparr>"
    by (simp add: checkStatus_unknown [OF assms(5)])
  have "run_timers jobId img replies' (poll jobId img replies s) = poll jobId img replies s"
    by (rule run_timers_None) (simp add: p)
  with p assms(6) show ?thesis
    by (simp add: checkStatus_unknown [OF assms(5)])
qed

theorem unknown_status_stalls_poll_witness:
  "isAnalyzing job_created
   \<and> isAnalyzing
     (poll ''job-1'' None
        (script [Resolved (sample_response ''processing''), Resolved (sample_response ''queued'')])
        job_created)
   \<and> analysisStatus
     (poll ''job-1'' None
        (script [Resolved (sample_response ''processing''), Resolved (sample_response ''queued'')])
        job_created) = ''queued''
   \<and> timer
     (poll ''job-1'' None
        (script [Resolved (sample_response ''processing''), Resolved (sample_response ''queued'')])
        job_created) = None
   \<and> error
     (poll ''job-1'' None
        (script [Resolved (sample_response ''processing''), Resolved (sample_response ''queued'')])
        job_created) = None"
proof -
  let ?replies = "script [Resolved (sample_response ''processing''),
    Resolved (sample_response ''queued'')]"
  have c: "status_checks job_created = 0"
    by (simp add: status_checks_def job_created_def initial_scanner_def)
  have t: "timer job_created = None" and e: "error job_created = None"
    and i: "isAnalyzing job_created"
    by (simp_all add: job_created_def initial_scanner_def)
  have w: "\<forall>i<1. waiting (?replies (status_checks job_created + i))"
    by (simp add: c script_def waiting_def has_status_def sample_response_def)
  have r: "?replies (status_checks job_created + 1) = Resolved (sample_response ''queued'')"
    by (simp add: c script_def)
  have u: "status (sample_response ''queued'')
      \<notin> {''pending'', ''processing'', ''completed'', ''failed''}"
    by (simp add: sample_response_def)
  have "(1::nat) \<le> maxRetries"
    by (simp add: maxRetries_def)
  from unknown_status_stalls_poll [OF t w this r u i, of "''job-1''" None]
  show ?thesis
    using i e by (simp add: sample_response_def)
qed

lemma checkStatus_failed:
  assumes "status res = ''failed''"
  shows "checkStatus jobId img (Resolved res) s =
     s\<lparr>analysisStatus := ''failed'',
       effects := effects s @ [GetAnalysisResult jobId,
          ConsoleError ''Error checking analysis status:'',
          ToastError (case error_message res of None \<Rightarrow> ''Analysis failed''
                      | Some m \<Rightarrow> if m = [] then ''Analysis failed'' else m)],
       error := Some (case error_message res of None \<Rightarrow> ''Analysis failed''
                      | Some m \<Rightarrow> if m = [] then ''Analysis failed'' else m),
       isAnalyzing := False, currentJobId := None\<rparr>"
  using assms by (simp add: checkStatus_def catch_block_def Let_def)

lemma status_cases:
  obtains (completed) "status res = ''completed''"
  | (failed) "status res = ''failed''"
  | (waiting) "waiting (Resolved res)"
  | (unknown) "status res \<notin> {''pending'', ''processing'', ''completed'', ''failed''}"
  unfolding waiting_def has_status_def api_reply.case insert_iff empty_iff by blast

lemma checkStatus_outside_view:
  assumes "outside_view s = outside_view t"
  shows "outside_view (checkStatus jobId img reply s)
     = outside_view (checkStatus jobId img reply t)"
proof -
  from assms have eqs: "analysisHistory s = analysisHistory t" "effects s = effects t"
    "retries s = retries t" "timer s = timer t"
    by (simp_all add: outside_view_def)
  show ?thesis
  proof (cases reply)
    case (Rejected err)
    show ?thesis
      unfolding Rejected checkStatus_rejected by (simp add: outside_view_def eqs)
  next
    case (Resolved res)
    show ?thesis
    proof (cases res rule: status_cases)
      case completed
      show ?thesis
        unfolding Resolved checkStatus_completed [OF completed]
        by (simp add: outside_view_def eqs)
    next
      case failed
      show ?thesis
        unfolding Resolved checkStatus_failed [OF failed]
        by (simp add: outside_view_def eqs)
    next
      case waiting
      show ?thesis
      proof (cases "retries t < maxRetries")
        case True
        then have "retries s < maxRetries" by (simp add: eqs)
        then show ?thesis
          unfolding Resolved checkStatus_waiting [OF waiting True]
            checkStatus_waiting [OF waiting \<open>retries s < maxRetries\<close>]
          by (simp add: outside_view_def eqs)
      next
        case False
        then have "\<not> retries s < maxRetries" by (simp add: eqs)
        then show ?thesis
          unfolding Resolved checkStatus_timed_out [OF waiting False]
            checkStatus_timed_out [OF waiting \<open>\<not> retries s < maxRetries\<close>]
          by (simp add: outside_view_def eqs)
      qed
    next
      case unknown
      show ?thesis
        unfolding Resolved checkStatus_unknown [OF unknown]
        by (simp add: outside_view_def eqs)
    qed
  qed
qed

text \<open>
  What \<^verbatim>\<open>checkStatus\<close> leaves untouched, and when it leaves a timer behind.
\<close>

lemma checkStatus_keeps:
  "mounted (checkStatus jobId img reply s) = mounted s"
  "analysisResult (checkStatus jobId img reply s) = analysisResult s"
  "capturedImage (checkStatus jobId img reply s) = capturedImage s"
  "imageFileName (checkStatus jobId img reply s) = imageFileName s"
proof -
  have "mounted (checkStatus jobId img reply s) = mounted s
      \<and> analysisResult (checkStatus jobId img reply s) = analysisResult s
      \<and> capturedImage (checkStatus jobId img reply s) = capturedImage s
      \<and> imageFileName (checkStatus jobId img reply s) = imageFileName s"
  proof (cases reply)
    case (Rejected err)
    show ?thesis
      unfolding Rejected checkStatus_rejected by simp
  next
    case (Resolved res)
    show ?thesis
    proof (cases res rule: status_cases)
      case completed
      show ?thesis
        unfolding Resolved checkStatus_completed [OF completed] by simp
    next
      case failed
      show ?thesis
        unfolding Resolved checkStatus_failed [OF failed] by simp
    next
      case waiting
      show ?thesis
      proof (cases "retries s < maxRetries")
        case True
        show ?thesis
          unfolding Resolved checkStatus_waiting [OF waiting True] by simp
      next
        case False
        show ?thesis
          unfolding Resolved checkStatus_timed_out [OF waiting False] by simp
      qed
    next
      case unknown
      show ?thesis
        unfolding Resolved checkStatus_unknown [OF unknown] by simp
    qed
  qed
  then show "mounted (checkStatus jobId img reply s) = mounted s"
    "analysisResult (checkStatus jobId img reply s) = analysisResult s"
    "capturedImage (checkStatus jobId img reply s) = capturedImage s"
    "imageFileName (checkStatus jobId img reply s) = imageFileName s"
    by simp_all
qed

lemma checkStatus_timer_error:
  assumes "timer s = None" and "timer (checkStatus jobId img reply s) \<noteq> None"
  shows "error (checkStatus jobId img reply s) = error s"
proof (cases reply)
  case (Rejected err)
  with assms show ?thesis
    by (simp add: checkStatus_rejected)
next
  case (Resolved res)
  show ?thesis
  proof (cases res rule: status_cases)
    case completed
    with assms Resolved show ?thesis
      by (simp add: checkStatus_completed)
  next
    case failed
    with assms Resolved show ?thesis
      by (simp add: checkStatus_failed)
  next
    case waiting
    show ?thesis
    proof (cases "retries s < maxRetries")
      case True
      show ?thesis
        unfolding Resolved checkStatus_waiting [OF waiting True] by simp
    next
      case False
      with assms Resolved waiting show ?thesis
        by (simp add: checkStatus_timed_out)
    qed
  next
    case unknown
    show ?thesis
      unfolding Resolved checkStatus_unknown [OF unknown] by simp
  qed
qed

lemma step_outside_view:
  assumes "outside_view s = outside_view t"
  shows "outside_view (step jobId img ev s)
     = (if is_timer_event ev then outside_view (step jobId img ev t) else outside_view t)"
proof (cases ev)
  case (TimerFires reply)
  have tm: "timer s = timer t"
    using assms by (simp add: outside_view_def)
  show ?thesis
  proof (cases "timer t")
    case None
    with tm assms TimerFires show ?thesis by simp
  next
    case (Some d)
    have "outside_view (s\<lparr>timer := None\<rparr>) = outside_view (t\<lparr>timer := None\<rparr>)"
      using assms by (simp add: outside_view_def)
    then have c: "outside_view (checkStatus jobId img reply (s\<lparr>timer := None\<rparr>))
        = outside_view (checkStatus jobId img reply (t\<lparr>timer := None\<rparr>))"
      by (rule checkStatus_outside_view)
    have d: "outside_view (drop_state_updates u v) = outside_view v" for u v
      by (simp add: outside_view_def drop_state_updates_def)
    from Some tm TimerFires c show ?thesis
      by (simp add: Let_def d)
  qed
next
  case ResetScanner
  with assms show ?thesis by (simp add: resetScanner_def outside_view_def)
next
  case LeavePage
  with assms show ?thesis by (simp add: outside_view_def)
qed

lemma events_outside_view:
  "outside_view s = outside_view t \<Longrightarrow>
   outside_view (fold (step jobId img) evs s)
     = outside_view (fold (step jobId img) (filter is_timer_event evs) t)"
proof (induction evs arbitrary: s t)
  case Nil
  then show ?case by simp
next
  case (Cons ev evs)
  show ?case
  proof (cases "is_timer_event ev")
    case True
    have "outside_view (step jobId img ev s) = outside_view (step jobId img ev t)"
      using step_outside_view [OF Cons.prems, of jobId img ev] True by simp
    then have "outside_view (fold (step jobId img) evs (step jobId img ev s))
        = outside_view (fold (step jobId img) (filter is_timer_event evs) (step jobId img ev t))"
      by (rule Cons.IH)
    with True show ?thesis by simp
  next
    case False
    have "outside_view (step jobId img ev s) = outside_view t"
      using step_outside_view [OF Cons.prems, of jobId img ev] False by simp
    then have "outside_view (fold (step jobId img) evs (step jobId img ev s))
        = outside_view (fold (step jobId img) (filter is_timer_event evs) t)"
      by (rule Cons.IH)
    with False show ?thesis by simp
  qed
qed

text \<open>Once the page is left, no event changes the page's state.\<close>

lemma step_unmounted:
  assumes "\<not> mounted s"
  shows "\<not> mounted (step jobId img ev s) \<and> page_view (step jobId img ev s) = page_view s"
proof (cases ev)
  case (TimerFires reply)
  show ?thesis
  proof (cases "timer s")
    case None
    with assms TimerFires show ?thesis by simp
  next
    case (Some d)
    have "mounted (checkStatus jobId img reply (s\<lparr>timer := None\<rparr>)) = mounted s"
      by (simp add: checkStatus_keeps)
    with assms Some TimerFires show ?thesis
      by (simp add: Let_def drop_state_updates_def page_view_def)
  qed
next
  case ResetScanner
  with assms show ?thesis by (simp add: reset_offered_def)
next
  case LeavePage
  with assms show ?thesis by (simp add: page_view_def)
qed

lemma events_unmounted:
  "\<not> mounted s \<Longrightarrow> page_view (fold (step jobId img) evs s) = page_view s"
proof (induction evs arbitrary: s)
  case Nil
  then show ?case by simp
next
  case (Cons ev evs)
  from step_unmounted [OF Cons.prems, of jobId img ev]
  have m: "\<not> mounted (step jobId img ev s)"
    and p: "page_view (step jobId img ev s) = page_view s"
    by simp_all
  from m have "page_view (fold (step jobId img) evs (step jobId img ev s))
      = page_view (step jobId img ev s)"
    by (rule Cons.IH)
  with p show ?case by simp
qed

lemma analyzeImage_no_reset:
  assumes "timer s0 = None"
  shows "no_reset_while_polling (analyzeImage imageData fileName jobReply reply s0)"
proof (cases jobReply)
  case (JobRejected err)
  with assms show ?thesis
    by (simp add: analyzeImage_def no_reset_while_polling_def Let_def)
next
  case (JobResolved jobResponse)
  define s where "s = s0\<lparr>isAnalyzing := True, error := None, equipmentItems := [],
    analysisMetadata := None, analysisResult := None,
    capturedImage := Some (''data:image/jpeg;base64,'' @ imageData),
    imageFileName := fileName, analysisStatus := ''pending'',
    currentJobId := Some (job_id jobResponse),
    effects := effects s0 @ [AnalyzeImage imageData,
      ToastSuccess ''Analysis job created. Processing image...''],
    retries := 0\<rparr>"
  have a: "analyzeImage imageData fileName jobReply reply s0
      = checkStatus (job_id jobResponse) (capturedImage s0) reply s"
    unfolding JobResolved by (simp add: analyzeImage_def pollAnalysisResult_def Let_def s_def)
  have t: "timer s = None" and e: "error s = None" and r: "analysisResult s = None"
    using assms by (simp_all add: s_def)
  have "timer (checkStatus (job_id jobResponse) (capturedImage s0) reply s) \<noteq> None
      \<longrightarrow> error (checkStatus (job_id jobResponse) (capturedImage s0) reply s) = None"
    using checkStatus_timer_error [OF t] e by simp
  then show ?thesis
    unfolding a no_reset_while_polling_def by (simp add: checkStatus_keeps r)
qed

lemma step_no_reset:
  assumes "no_reset_while_polling s"
  shows "no_reset_while_polling (step jobId img ev s)"
proof (cases ev)
  case (TimerFires reply)
  show ?thesis
  proof (cases "timer s")
    case None
    with assms TimerFires show ?thesis by simp
  next
    case (Some d)
    let ?t = "s\<lparr>timer := None\<rparr>"
    let ?u = "checkStatus jobId img reply ?t"
    have e: "error s = None" and r: "analysisResult s = None"
      using assms Some by (simp_all add: no_reset_while_polling_def)
    have "timer ?u \<noteq> None \<longrightarrow> error ?u = None"
      using checkStatus_timer_error [of ?t jobId img reply] e by simp
    then have u: "no_reset_while_polling ?u"
      by (simp add: no_reset_while_polling_def checkStatus_keeps r)
    have "no_reset_while_polling (drop_state_updates s ?u)"
      by (simp add: no_reset_while_polling_def drop_state_updates_def e r)
    with u Some TimerFires show ?thesis
      by (simp add: Let_def)
  qed
next
  case ResetScanner
  with assms show ?thesis
    by (simp add: no_reset_while_polling_def resetScanner_def)
next
  case LeavePage
  with assms show ?thesis
    by (simp add: no_reset_while_polling_def)
qed

lemma events_no_reset:
  "no_reset_while_polling s \<Longrightarrow> no_reset_while_polling (fold (step jobId img) evs s)"
  by (induction evs arbitrary: s) (simp_all add: step_no_reset)

lemma reset_not_offered:
  assumes "no_reset_while_polling s" and "timer s \<noteq> None"
  shows "\<not> reset_offered s"
  using assms by (simp add: no_reset_while_polling_def reset_offered_def)

text \<open>
  C2, as the code has it. Nothing cancels a poll. While the poll is not over, the page
  offers no reset: in every state that follows a call of \<^verbatim>\<open>analyzeImage\<close>, a pending
  timer means that no reset button is rendered, and the reset event changes nothing.
  Leaving the page runs no cleanup: the pending timer still fires, and whatever the
  replies, the poller makes the same status checks, sets the same timers, calls
  \<^verbatim>\<open>toast\<close> with the same outcome and appends the same entry to the analysis history
  as it does when the departures and resets are taken out of the run. What stops
  when the page is left is the page's own state: it gets no further update.
\<close>

theorem leaving_the_page_does_not_stop_poll:
  "outside_view (fold (step jobId img) evs s)
     = outside_view (fold (step jobId img) (filter is_timer_event evs) s)
   \<and> (\<not> mounted s \<longrightarrow> page_view (fold (step jobId img) evs s) = page_view s)
   \<and> (timer s0 = None
        \<and> timer (fold (step jobId img) evs (analyzeImage imageData fileName jobReply reply s0))
          \<noteq> None
      \<longrightarrow> \<not> reset_offered
            (fold (step jobId img) evs (analyzeImage imageData fileName jobReply reply s0))
        \<and> step jobId img ResetScanner
            (fold (step jobId img) evs (analyzeImage imageData fileName jobReply reply s0))
          = fold (step jobId img) evs (analyzeImage imageData fileName jobReply reply s0))"
proof -
  have a: "outside_view (fold (step jobId img) evs s)
     = outside_view (fold (step jobId img) (filter is_timer_event evs) s)"
    by (rule events_outside_view) (rule refl)
  have b: "\<not> mounted s \<longrightarrow> page_view (fold (step jobId img) evs s) = page_view s"
    by (simp add: events_unmounted)
  let ?s = "fold (step jobId img) evs (analyzeImage imageData fileName jobReply reply s0)"
  have c: "\<not> reset_offered ?s \<and> step jobId img ResetScanner ?s = ?s"
    if "timer s0 = None" and "timer ?s \<noteq> None"
  proof -
    have "no_reset_while_polling ?s"
      using that(1) by (intro events_no_reset analyzeImage_no_reset)
    then have "\<not> reset_offered ?s"
      using that(2) by (rule reset_not_offered)
    then show ?thesis by simp
  qed
  from a b c show ?thesis
    by blast
qed

theorem leaving_the_page_does_not_stop_poll_witness:
  "\<not> mounted (step ''job-1'' None LeavePage scan_in_progress)
   \<and> page_view (fold (step ''job-1'' None)
        [TimerFires (Resolved (sample_response ''completed''))]
        (step ''job-1'' None LeavePage scan_in_progress))
       = page_view (step ''job-1'' None LeavePage scan_in_progress)
   \<and> outside_view (fold (step ''job-1'' None)
        [LeavePage, TimerFires (Resolved (sample_response ''completed''))] scan_in_progress)
       = outside_view (fold (step ''job-1'' None)
        [TimerFires (Resolved (sample_response ''completed''))] scan_in_progress)
   \<and> timer initial_scanner = None \<and> timer scan_in_progress = Some 2000
   \<and> \<not> reset_offered scan_in_progress
   \<and> step ''job-1'' None ResetScanner scan_in_progress = scan_in_progress"
proof -
  let ?done = "TimerFires (Resolved (sample_response ''completed''))"
  let ?left = "step ''job-1'' None LeavePage scan_in_progress"
  have m: "\<not> mounted ?left"
    by simp
  have t0: "timer initial_scanner = None"
    by (simp add: initial_scanner_def)
  have t: "timer scan_in_progress = Some 2000"
    by (simp add: scan_in_progress_eq)
  have s: "fold (step ''job-1'' None) [] scan_in_progress = scan_in_progress"
    by simp
  from leaving_the_page_does_not_stop_poll
    [where jobId = "''job-1''" and img = None and evs = "[?done]" and s = ?left]
  have p: "page_view (fold (step ''job-1'' None) [?done] ?left) = page_view ?left"
    using m by blast
  from leaving_the_page_does_not_stop_poll
    [where jobId = "''job-1''" and img = None and evs = "[]" and ?s0.0 = initial_scanner
      and imageData = "''/9j/4AAQ''" and fileName = "''photo.jpg''"
      and jobReply = "JobResolved \<lparr>job_id = ''job-1'', job_status = ''pending'',
        job_message = ''queued''\<rparr>"
      and reply = "Resolved (sample_response ''pending'')"]
  have r: "\<not> reset_offered scan_in_progress
      \<and> step ''job-1'' None ResetScanner scan_in_progress = scan_in_progress"
    using t0 t unfolding scan_in_progress_def [symmetric] s by blast
  from leaving_the_page_does_not_stop_poll
    [where jobId = "''job-1''" and img = None and evs = "[LeavePage, ?done]"
      and s = scan_in_progress]
  have o: "outside_view (fold (step ''job-1'' None) [LeavePage, ?done] scan_in_progress)
       = outside_view (fold (step ''job-1'' None) [?done] scan_in_progress)"
    by simp
  from m p r o t0 t show ?thesis
    by blast
qed

text \<open>
  The specification's cancellation rule fails on a scan whose first check found the
  job pending: the page is left, the pending timer fires, a second status check is
  made, the completion is announced and the result is stored.
\<close>

theorem left_page_poll_goes_on_counterexample:
  "isAnalyzing scan_in_progress \<and> timer scan_in_progress = Some 2000
   \<and> status_checks scan_in_progress = 1
   \<and> status_checks (fold (step ''job-1'' None)
        [LeavePage, TimerFires (Resolved (sample_response ''completed''))] scan_in_progress) = 2
   \<and> ToastSuccess ''Equipment analysis completed!'' \<in> set (effects (fold (step ''job-1'' None)
        [LeavePage, TimerFires (Resolved (sample_response ''completed''))] scan_in_progress))
   \<and> length (analysisHistory (fold (step ''job-1'' None)
        [LeavePage, TimerFires (Resolved (sample_response ''completed''))] scan_in_progress)) = 1"
proof -
  let ?done = "Resolved (sample_response ''completed'')"
  have c: "status (sample_response ''completed'') = ''completed''"
    by (simp add: sample_response_def)
  have t: "timer scan_in_progress = Some 2000" and i: "isAnalyzing scan_in_progress"
    and h: "analysisHistory scan_in_progress = []"
    and e: "effects scan_in_progress = [AnalyzeImage ''/9j/4AAQ'',
       ToastSuccess ''Analysis job created. Processing image...'',
       GetAnalysisResult ''job-1'', SetTimeout 2000]"
    by (simp_all add: scan_in_progress_eq job_created_def initial_scanner_def)
  have n: "status_checks scan_in_progress = 1"
    by (simp add: status_checks_def e)
  have l: "fold (step ''job-1'' None) [LeavePage, TimerFires ?done] scan_in_progress
      = drop_state_updates (scan_in_progress\<lparr>mounted := False\<rparr>)
          (checkStatus ''job-1'' None ?done (scan_in_progress\<lparr>mounted := False, timer := None\<rparr>))"
    by (simp add: t Let_def)
  have "status_checks (fold (step ''job-1'' None) [LeavePage, TimerFires ?done]
      scan_in_progress) = 2"
    "ToastSuccess ''Equipment analysis completed!'' \<in> set (effects (fold (step ''job-1'' None)
        [LeavePage, TimerFires ?done] scan_in_progress))"
    "length (analysisHistory (fold (step ''job-1'' None) [LeavePage, TimerFires ?done]
      scan_in_progress)) = 1"
    unfolding l checkStatus_completed [OF c]
    by (simp_all add: status_checks_def drop_state_updates_def e h)
  with t i n show ?thesis
    by blast
qed

section \<open>Properties of the image metrics\<close>

declare brightness_loop.simps [simp del] contrast_loop.simps [simp del]

lemma element_nat: "i < length data \<Longrightarrow> element data (int i) = Some (real (unat (data ! i)))"
  by (simp add: element_def)

lemma luminance_sample:
  assumes "4 * k + 2 < length data"
  shows "luminance data (int (4 * k)) = Some (sample_luma data k)"
proof -
  have e0: "element data (int (4 * k)) = Some (real (unat (data ! (4 * k))))"
    by (rule element_nat) (use assms in simp)
  have e1: "element data (int (4 * k) + 1) = Some (real (unat (data ! (4 * k + 1))))"
    using element_nat [of "4 * k + 1" data] assms by (simp add: add.commute)
  have e2: "element data (int (4 * k) + 2) = Some (real (unat (data ! (4 * k + 2))))"
    using element_nat [of "4 * k + 2" data] assms by (simp add: add.commute)
  show ?thesis
    unfolding luminance_def sample_luma_def e0 e1 e2 by simp
qed

lemma brightness_loop_sum:
  assumes "length data = 4 * n" and "k \<le> n"
  shows "brightness_loop data (4 * k) (Some s)
     = Some (s + (\<Sum>j\<leftarrow>[k..<n]. sample_luma data j))"
  using assms(2)
proof (induction "n - k" arbitrary: k s)
  case 0
  then have "k = n" by simp
  then show ?case
    using assms(1) by (simp add: brightness_loop.simps)
next
  case (Suc m)
  then have lt: "k < n" by simp
  then have "4 * k + 2 < length data"
    using assms(1) by simp
  then have l: "luminance data (int (4 * k)) = Some (sample_luma data k)"
    by (rule luminance_sample)
  have "4 * k < length data"
    using lt assms(1) by simp
  then have "brightness_loop data (4 * k) (Some s)
      = brightness_loop data (4 * k + 4)
          (do { s' \<leftarrow> Some s; l \<leftarrow> luminance data (int (4 * k)); Some (s' + l) })"
    by (subst brightness_loop.simps) (simp only: if_True)
  also have "\<dots> = brightness_loop data (4 * Suc k) (Some (s + sample_luma data k))"
    unfolding l by (simp add: add.commute)
  also have "\<dots> = Some (s + sample_luma data k + (\<Sum>j\<leftarrow>[Suc k..<n]. sample_luma data j))"
    using Suc.hyps(2) lt by (intro Suc.hyps(1)) simp_all
  also have "\<dots> = Some (s + (\<Sum>j\<leftarrow>[k..<n]. sample_luma data j))"
    using lt by (simp add: upt_conv_Cons)
  finally show ?case .
qed

lemma contrast_loop_sum:
  assumes "length data = 4 * n" and "k \<le> n"
  shows "contrast_loop data (Some b) (4 * k) (Some v)
     = Some (v + (\<Sum>j\<leftarrow>[k..<n]. (sample_luma data j - b)\<^sup>2))"
  using assms(2)
proof (induction "n - k" arbitrary: k v)
  case 0
  then have "k = n" by simp
  then show ?case
    using assms(1) by (simp add: contrast_loop.simps)
next
  case (Suc m)
  then have lt: "k < n" by simp
  then have "4 * k + 2 < length data"
    using assms(1) by simp
  then have l: "luminance data (int (4 * k)) = Some (sample_luma data k)"
    by (rule luminance_sample)
  have "4 * k < length data"
    using lt assms(1) by simp
  then have "contrast_loop data (Some b) (4 * k) (Some v)
      = contrast_loop data (Some b) (4 * k + 4)
          (do { v' \<leftarrow> Some v; l \<leftarrow> luminance data (int (4 * k)); b' \<leftarrow> Some b;
                Some (v' + (l - b') ^ 2) })"
    by (subst contrast_loop.simps) (simp only: if_True)
  also have "\<dots> = contrast_loop data (Some b) (4 * Suc k)
      (Some (v + (sample_luma data k - b)\<^sup>2))"
    unfolding l by (simp add: add.commute)
  also have "\<dots> = Some (v + (sample_luma data k - b)\<^sup>2
      + (\<Sum>j\<leftarrow>[Suc k..<n]. (sample_luma data j - b)\<^sup>2))"
    using Suc.hyps(2) lt by (intro Suc.hyps(1)) simp_all
  also have "\<dots> = Some (v + (\<Sum>j\<leftarrow>[k..<n]. (sample_luma data j - b)\<^sup>2))"
    using lt by (simp add: upt_conv_Cons)
  finally show ?case .
qed

text \<open>
  On a buffer of \<open>n \<ge> 1\<close> whole pixels, brightness and contrast are what steps 2 and 3
  of the specification say, and neither is NaN.
\<close>

lemma calculateBrightness_spec:
  assumes "length data = 4 * n" and "0 < n"
  shows "calculateBrightness data = Some (spec_brightness data)"
proof -
  have "brightness_loop data (4 * 0) (Some 0) = Some (0 + (\<Sum>j\<leftarrow>[0..<n]. sample_luma data j))"
    using assms(1) by (rule brightness_loop_sum) simp
  then have "brightness_loop data 0 (Some 0) = Some (\<Sum>j\<leftarrow>[0..<n]. sample_luma data j)"
    by simp
  then show ?thesis
    using assms by (simp add: calculateBrightness_def per_pixel_def spec_brightness_def)
qed

lemma calculateContrast_spec:
  assumes "length data = 4 * n" and "0 < n"
  shows "calculateContrast data = Some (spec_contrast data)"
proof -
  let ?b = "spec_brightness data"
  have "contrast_loop data (Some ?b) (4 * 0) (Some 0)
      = Some (0 + (\<Sum>j\<leftarrow>[0..<n]. (sample_luma data j - ?b)\<^sup>2))"
    using assms(1) by (rule contrast_loop_sum) simp
  then have loop: "contrast_loop data (Some ?b) 0 (Some 0)
      = Some (\<Sum>j\<leftarrow>[0..<n]. (sample_luma data j - ?b)\<^sup>2)"
    by simp
  have "0 \<le> (\<Sum>j\<leftarrow>[0..<n]. (sample_luma data j - ?b)\<^sup>2)"
    by (rule sum_list_nonneg) auto
  then have "\<not> (\<Sum>j\<leftarrow>[0..<n]. (sample_luma data j - ?b)\<^sup>2) / real n < 0"
    by (simp add: not_less)
  then show ?thesis
    using assms
    by (simp add: calculateContrast_def calculateBrightness_spec [OF assms] loop per_pixel_def
        Math_sqrt_def spec_contrast_def)
qed

text \<open>Sharpness: the reads of an interior pixel's neighbourhood are all inside the buffer.\<close>

lemma pixel_in_buffer:
  assumes "x < width" and "y < height"
  shows "y * width + x < width * (height::nat)"
proof -
  have "y * width + x < Suc y * width"
    using assms(1) by simp
  also have "\<dots> \<le> height * width"
    using assms(2) by (intro mult_le_mono1) simp
  finally show ?thesis
    by (simp add: mult.commute)
qed

lemma gray_at:
  assumes "length data = 4 * (width * height)" and "x < width" and "y < height"
    and "i = int (4 * (y * width + x))"
  shows "getGrayscale data i = Some (pixel_luma data width x y)"
proof -
  have "y * width + x < width * height"
    using assms(2,3) by (rule pixel_in_buffer)
  then have b: "4 * (y * width + x) + 2 < length data"
    using assms(1) by simp
  then have "4 * (y * width + x) < length data"
    by simp
  then have "\<not> (int (4 * (y * width + x)) < 0
      \<or> int (4 * (y * width + x)) \<ge> int (length data))"
    by (simp only: of_nat_less_0_iff of_nat_le_iff) simp
  then show ?thesis
    unfolding getGrayscale_def pixel_luma_def assms(4)
    by (simp only: if_False luminance_sample [OF b])
qed

lemma upt3: "[0..<3] = [0, 1, 2]"
  by (simp add: upt_rec)

lemma transposed_kernel: "transpose sobel_kernel = [[-1, -2, -1], [0, 0, 0], [1, 2, 1]]"
  by (simp add: sobel_kernel_def)

lemma sobel_gx_interior:
  assumes wf: "length data = 4 * (w * h)" and x: "Suc (Suc x) < w" and y: "Suc (Suc y) < h"
  shows "sobel_gx data (int w) ((int (Suc y) * int w + int (Suc x)) * 4)
     = Some (convolve3 sobel_kernel data w (Suc x) (Suc y))"
proof -
  let ?idx = "(int (Suc y) * int w + int (Suc x)) * 4"
  have a: "getGrayscale data (?idx - int w * 4 - 4) = Some (pixel_luma data w x y)"
    by (rule gray_at [OF wf]) (use x y in \<open>simp_all add: algebra_simps\<close>)
  have b: "getGrayscale data (?idx - int w * 4 + 4) = Some (pixel_luma data w (Suc (Suc x)) y)"
    by (rule gray_at [OF wf]) (use x y in \<open>simp_all add: algebra_simps\<close>)
  have c: "getGrayscale data (?idx - 4) = Some (pixel_luma data w x (Suc y))"
    by (rule gray_at [OF wf]) (use x y in \<open>simp_all add: algebra_simps\<close>)
  have d: "getGrayscale data (?idx + 4) = Some (pixel_luma data w (Suc (Suc x)) (Suc y))"
    by (rule gray_at [OF wf]) (use x y in \<open>simp_all add: algebra_simps\<close>)
  have e: "getGrayscale data (?idx + int w * 4 - 4) = Some (pixel_luma data w x (Suc (Suc y)))"
    by (rule gray_at [OF wf]) (use x y in \<open>simp_all add: algebra_simps\<close>)
  have f: "getGrayscale data (?idx + int w * 4 + 4)
      = Some (pixel_luma data w (Suc (Suc x)) (Suc (Suc y)))"
    by (rule gray_at [OF wf]) (use x y in \<open>simp_all add: algebra_simps\<close>)
  show ?thesis
    unfolding sobel_gx_def a b c d e f
    by (simp add: convolve3_def sobel_kernel_def upt3)
qed

lemma sobel_gy_interior:
  assumes wf: "length data = 4 * (w * h)" and x: "Suc (Suc x) < w" and y: "Suc (Suc y) < h"
  shows "sobel_gy data (int w) ((int (Suc y) * int w + int (Suc x)) * 4)
     = Some (convolve3 (transpose sobel_kernel) data w (Suc x) (Suc y))"
proof -
  let ?idx = "(int (Suc y) * int w + int (Suc x)) * 4"
  have a: "getGrayscale data (?idx - int w * 4 - 4) = Some (pixel_luma data w x y)"
    by (rule gray_at [OF wf]) (use x y in \<open>simp_all add: algebra_simps\<close>)
  have b: "getGrayscale data (?idx - int w * 4) = Some (pixel_luma data w (Suc x) y)"
    by (rule gray_at [OF wf]) (use x y in \<open>simp_all add: algebra_simps\<close>)
  have c: "getGrayscale data (?idx - int w * 4 + 4) = Some (pixel_luma data w (Suc (Suc x)) y)"
    by (rule gray_at [OF wf]) (use x y in \<open>simp_all add: algebra_simps\<close>)
  have d: "getGrayscale data (?idx + int w * 4 - 4) = Some (pixel_luma data w x (Suc (Suc y)))"
    by (rule gray_at [OF wf]) (use x y in \<open>simp_all add: algebra_simps\<close>)
  have e: "getGrayscale data (?idx + int w * 4) = Some (pixel_luma data w (Suc x) (Suc (Suc y)))"
    by (rule gray_at [OF wf]) (use x y in \<open>simp_all add: algebra_simps\<close>)
  have f: "getGrayscale data (?idx + int w * 4 + 4)
      = Some (pixel_luma data w (Suc (Suc x)) (Suc (Suc y)))"
    by (rule gray_at [OF wf]) (use x y in \<open>simp_all add: algebra_simps\<close>)
  show ?thesis
    unfolding sobel_gy_def a b c d e f transposed_kernel
    by (simp add: convolve3_def upt3)
qed

lemma sharpness_step_interior:
  assumes wf: "length data = 4 * (w * h)"
    and "0 < x" and "Suc x < w" and "0 < y" and "Suc y < h"
  shows "sharpness_step data w y x (Some s, c)
     = (Some (s + gradient_magnitude data w x y), Suc c)"
proof -
  from assms(2,4) obtain x' y' where xy: "x = Suc x'" "y = Suc y'"
    by (metis Suc_pred)
  have x': "Suc (Suc x') < w" and y': "Suc (Suc y') < h"
    using assms(3,5) xy by simp_all
  let ?gx = "convolve3 sobel_kernel data w x y"
  let ?gy = "convolve3 (transpose sobel_kernel) data w x y"
  have "\<not> ?gx * ?gx + ?gy * ?gy < 0"
    by (simp add: not_less)
  then have m: "Math_sqrt (?gx * ?gx + ?gy * ?gy) = Some (gradient_magnitude data w x y)"
    by (simp add: Math_sqrt_def gradient_magnitude_def power2_eq_square)
  show ?thesis
    unfolding sharpness_step_def Let_def xy
      sobel_gx_interior [OF wf x' y'] sobel_gy_interior [OF wf x' y']
    using m by (simp add: xy)
qed

lemma fold_accumulate:
  assumes "\<And>x s c. x \<in> set xs \<Longrightarrow> f x (Some s, c) = (Some (s + g x), c + n)"
  shows "fold f xs (Some s, c) = (Some (s + sum_list (map g xs)), c + n * length xs)"
  using assms
proof (induction xs arbitrary: s c)
  case Nil
  then show ?case by simp
next
  case (Cons x xs)
  have "fold f (x # xs) (Some s, c) = fold f xs (Some (s + g x), c + n)"
    using Cons.prems [of x s c] by simp
  also have "\<dots> = (Some (s + g x + sum_list (map g xs)), c + n + n * length xs)"
    by (rule Cons.IH) (simp add: Cons.prems)
  finally show ?case
    by (simp add: add.assoc)
qed

text \<open>
  On an image of at least 3 by 3 pixels whose buffer has four bytes for each pixel,
  the sharpness is what step 4 of the specification says.
\<close>

lemma calculateSharpness_spec:
  assumes wf: "length data = 4 * (w * h)" and "3 \<le> w" and "3 \<le> h"
  shows "calculateSharpness data w h = Some (spec_sharpness data w h)"
proof -
  have row: "fold (sharpness_step data w y) [1..<w - 1] (Some s, c)
      = (Some (s + (\<Sum>x\<leftarrow>[1..<w - 1]. gradient_magnitude data w x y)), c + (w - 2))"
    if "y \<in> set [1..<h - 1]" for y s c
  proof -
    have y: "0 < y" "Suc y < h"
      using that by auto
    have "fold (sharpness_step data w y) [1..<w - 1] (Some s, c)
        = (Some (s + sum_list (map (\<lambda>x. gradient_magnitude data w x y) [1..<w - 1])),
           c + 1 * length [1..<w - 1])"
    proof (rule fold_accumulate)
      fix x s' c'
      assume "x \<in> set [1..<w - 1]"
      then have "0 < x" "Suc x < w" by auto
      then show "sharpness_step data w y x (Some s', c')
          = (Some (s' + gradient_magnitude data w x y), c' + 1)"
        using sharpness_step_interior [OF wf _ _ y] by simp
    qed
    moreover have "length [1..<w - 1] = w - 2"
      by simp
    ultimately show ?thesis by simp
  qed
  have "fold (\<lambda>y. fold (sharpness_step data w y) [1..<w - 1]) [1..<h - 1] (Some 0, 0)
      = (Some (0 + sum_list (map (\<lambda>y. \<Sum>x\<leftarrow>[1..<w - 1]. gradient_magnitude data w x y)
            [1..<h - 1])),
         0 + (w - 2) * length [1..<h - 1])"
    by (rule fold_accumulate) (rule row)
  moreover have "length [1..<h - 1] = h - 2"
    by simp
  ultimately have loops:
    "fold (\<lambda>y. fold (sharpness_step data w y) [1..<w - 1]) [1..<h - 1] (Some 0, 0)
      = (Some (\<Sum>y\<leftarrow>[1..<h - 1]. \<Sum>x\<leftarrow>[1..<w - 1]. gradient_magnitude data w x y),
         (w - 2) * (h - 2))"
    by simp
  have "0 < (w - 2) * (h - 2)"
    using assms(2,3) by simp
  then show ?thesis
    unfolding calculateSharpness_def loops by (simp add: spec_sharpness_def)
qed



text \<open>Uniform images.\<close>

lemma length_concat_replicate: "length (concat (replicate n xs)) = n * length xs"
  by (induction n) simp_all

lemma nth_concat_replicate:
  "i < n * length xs \<Longrightarrow> concat (replicate n xs) ! i = xs ! (i mod length xs)"
proof (induction n arbitrary: i)
  case 0
  then show ?case by simp
next
  case (Suc n)
  show ?case
  proof (cases "i < length xs")
    case True
    then show ?thesis by (simp add: nth_append)
  next
    case False
    then have "i - length xs < n * length xs"
      using Suc.prems by simp
    then have "concat (replicate n xs) ! (i - length xs) = xs ! ((i - length xs) mod length xs)"
      by (rule Suc.IH)
    with False show ?thesis
      by (simp add: nth_append le_mod_geq)
  qed
qed

lemma length_uniform_image: "length (uniform_image w h r g b a) = 4 * (w * h)"
  by (simp add: uniform_image_def length_concat_replicate)

lemma sample_luma_uniform:
  assumes "k < w * h"
  shows "sample_luma (uniform_image w h r g b a) k = luma_of r g b"
proof -
  have m: "(4 * k) mod 4 = 0" "(4 * k + 1) mod 4 = 1" "(4 * k + 2) mod 4 = 2"
    by presburger+
  have "uniform_image w h r g b a ! (4 * k) = r"
    using nth_concat_replicate [of "4 * k" "w * h" "[r, g, b, a]"] assms
    by (simp add: uniform_image_def)
  moreover have "uniform_image w h r g b a ! (4 * k + 1) = g"
    using nth_concat_replicate [of "4 * k + 1" "w * h" "[r, g, b, a]"] assms m(2)
    by (simp add: uniform_image_def)
  moreover have "uniform_image w h r g b a ! (4 * k + 2) = b"
    using nth_concat_replicate [of "4 * k + 2" "w * h" "[r, g, b, a]"] assms m(3)
    by (simp add: uniform_image_def)
  ultimately show ?thesis
    by (simp add: sample_luma_def luma_of_def)
qed

lemma pixel_luma_uniform:
  assumes "x < w" and "y < h"
  shows "pixel_luma (uniform_image w h r g b a) w x y = luma_of r g b"
  unfolding pixel_luma_def
  by (rule sample_luma_uniform) (rule pixel_in_buffer [OF assms])

lemma spec_brightness_uniform:
  assumes "0 < w * h"
  shows "spec_brightness (uniform_image w h r g b a) = Math_round (luma_of r g b)"
proof -
  have "map (sample_luma (uniform_image w h r g b a)) [0..<w * h]
      = map (\<lambda>k. luma_of r g b) [0..<w * h]"
    by (rule map_ext) (simp add: sample_luma_uniform)
  then have "(\<Sum>k\<leftarrow>[0..<w * h]. sample_luma (uniform_image w h r g b a) k)
      = real (w * h) * luma_of r g b"
    by (simp only: sum_list_triv length_upt diff_zero)
  then show ?thesis
    using assms by (simp add: spec_brightness_def length_uniform_image)
qed

lemma spec_contrast_uniform:
  assumes "0 < w * h"
  shows "spec_contrast (uniform_image w h r g b a)
     = Math_round \<bar>luma_of r g b - Math_round (luma_of r g b)\<bar>"
proof -
  let ?b = "Math_round (luma_of r g b)"
  have "map (\<lambda>k. (sample_luma (uniform_image w h r g b a) k - ?b)\<^sup>2) [0..<w * h]
      = map (\<lambda>k. (luma_of r g b - ?b)\<^sup>2) [0..<w * h]"
    by (rule map_ext) (simp add: sample_luma_uniform)
  then have "(\<Sum>k\<leftarrow>[0..<w * h]. (sample_luma (uniform_image w h r g b a) k - ?b)\<^sup>2)
      = real (w * h) * (luma_of r g b - ?b)\<^sup>2"
    by (simp only: sum_list_triv length_upt diff_zero)
  then show ?thesis
    using assms
    by (simp add: spec_contrast_def spec_brightness_uniform [OF assms] length_uniform_image)
qed

lemma gradient_magnitude_uniform:
  assumes "0 < x" and "Suc x < w" and "0 < y" and "Suc y < h"
  shows "gradient_magnitude (uniform_image w h r g b a) w x y = 0"
proof -
  have "convolve3 sobel_kernel (uniform_image w h r g b a) w x y = 0"
    using assms by (simp add: convolve3_def sobel_kernel_def upt3 pixel_luma_uniform)
  moreover have "convolve3 (transpose sobel_kernel) (uniform_image w h r g b a) w x y = 0"
    using assms by (simp add: convolve3_def transposed_kernel upt3 pixel_luma_uniform)
  ultimately show ?thesis
    by (simp add: gradient_magnitude_def)
qed

lemma spec_sharpness_uniform: "spec_sharpness (uniform_image w h r g b a) w h = 0"
proof -
  have row: "(\<Sum>x\<leftarrow>[1..<w - 1]. gradient_magnitude (uniform_image w h r g b a) w x y) = 0"
    if "y \<in> set [1..<h - 1]" for y
  proof -
    have "map (\<lambda>x. gradient_magnitude (uniform_image w h r g b a) w x y) [1..<w - 1]
        = map (\<lambda>x. 0) [1..<w - 1]"
      using that by (intro map_ext) (auto simp add: gradient_magnitude_uniform)
    then show ?thesis
      by (simp only: sum_list_triv mult_zero_right)
  qed
  have "map (\<lambda>y. \<Sum>x\<leftarrow>[1..<w - 1]. gradient_magnitude (uniform_image w h r g b a) w x y)
        [1..<h - 1]
      = map (\<lambda>y. 0) [1..<h - 1]"
  proof (rule map_ext, intro impI)
    fix y
    assume "y \<in> set [1..<h - 1]"
    then show "(\<Sum>x\<leftarrow>[1..<w - 1]. gradient_magnitude (uniform_image w h r g b a) w x y) = 0"
      by (rule row)
  qed
  then have "(\<Sum>y\<leftarrow>[1..<h - 1]. \<Sum>x\<leftarrow>[1..<w - 1].
      gradient_magnitude (uniform_image w h r g b a) w x y) = 0"
    by (simp only: sum_list_triv mult_zero_right)
  then show ?thesis
    by (simp add: spec_sharpness_def Math_round_def)
qed

text \<open>
  Rounding the distance between a luma and its rounding: it is 0 unless the luma lies
  exactly halfway between two integers.
\<close>

lemma Math_round_deviation:
  fixes m :: nat
  assumes "m mod 1000 \<noteq> 500"
  shows "Math_round \<bar>real m / 1000 - Math_round (real m / 1000)\<bar> = 0"
proof -
  define l where "l = real m / 1000"
  define r where "r = \<lfloor>l + 1 / 2\<rfloor>"
  have le: "real_of_int r \<le> l + 1 / 2"
    unfolding r_def by (rule of_int_floor_le)
  have lt: "l + 1 / 2 < real_of_int r + 1"
    unfolding r_def by (rule real_of_int_floor_add_one_gt)
  have "real_of_int r \<noteq> l + 1 / 2"
  proof
    assume "real_of_int r = l + 1 / 2"
    then have "real m = 1000 * real_of_int r - 500"
      by (simp add: l_def)
    then have "real_of_int (int m) = real_of_int (1000 * r - 500)"
      by simp
    then have "int m = 1000 * r - 500"
      by (simp only: of_int_eq_iff)
    then have "int m = 500 + (r - 1) * 1000"
      by simp
    then have "int m mod 1000 = 500 mod 1000"
      by (simp only: mod_mult_self1)
    then have "int m mod 1000 = 500"
      by simp
    moreover have "int (m mod 1000) = int m mod 1000"
      by (simp add: zmod_int)
    ultimately have "int (m mod 1000) = int 500"
      by simp
    then have "m mod 1000 = 500"
      by (simp only: of_nat_eq_iff)
    with assms show False by simp
  qed
  with le have "real_of_int r < l + 1 / 2"
    by simp
  with lt have d: "\<bar>l - real_of_int r\<bar> < 1 / 2"
    by linarith
  have "\<lfloor>\<bar>l - real_of_int r\<bar> + 1 / 2\<rfloor> = 0"
  proof (rule floor_unique)
    show "real_of_int 0 \<le> \<bar>l - real_of_int r\<bar> + 1 / 2"
      by simp
    show "\<bar>l - real_of_int r\<bar> + 1 / 2 < real_of_int 0 + 1"
      using d by simp
  qed
  then show ?thesis
    by (simp add: Math_round_def l_def r_def)
qed

lemma luma_of_thousandths:
  "luma_of r g b = real (299 * unat r + 587 * unat g + 114 * unat b) / 1000"
  by (simp add: luma_of_def)



text \<open>
  C3, as the code has it. For every uniform RGBA image of at least 3 by 3 pixels the
  sharpness is 0. The brightness is the luma of the colour rounded to the nearest
  integer, not the luma itself, and the contrast is the rounded distance between the
  luma and that rounding: it is 0 when the luma does not lie exactly halfway between
  two integers, that is when 299 R + 587 G + 114 B is not 500 modulo 1000.
\<close>

theorem uniform_image_metrics:
  assumes "3 \<le> w" and "3 \<le> h"
  shows "calculateSharpness (uniform_image w h r g b a) w h = Some 0
     \<and> ((299 * unat r + 587 * unat g + 114 * unat b) mod 1000 \<noteq> 500 \<longrightarrow>
          calculateBrightness (uniform_image w h r g b a) = Some (Math_round (luma_of r g b))
          \<and> calculateContrast (uniform_image w h r g b a) = Some 0)"
proof -
  let ?data = "uniform_image w h r g b a"
  have wf: "length ?data = 4 * (w * h)"
    by (rule length_uniform_image)
  have n: "0 < w * h"
    using assms by simp
  have "calculateSharpness ?data w h = Some (spec_sharpness ?data w h)"
    using wf assms by (rule calculateSharpness_spec)
  then have s: "calculateSharpness ?data w h = Some 0"
    by (simp only: spec_sharpness_uniform)
  have b: "calculateBrightness ?data = Some (Math_round (luma_of r g b))"
    using calculateBrightness_spec [OF wf n] by (simp only: spec_brightness_uniform [OF n])
  have c: "calculateContrast ?data = Some 0"
    if "(299 * unat r + 587 * unat g + 114 * unat b) mod 1000 \<noteq> 500"
    using calculateContrast_spec [OF wf n] Math_round_deviation [OF that]
    by (simp only: spec_contrast_uniform [OF n] luma_of_thousandths)
  from s b c show ?thesis
    by simp
qed

theorem uniform_image_metrics_witness:
  "(3::nat) \<le> 3 \<and> (299 * unat (200 :: 8 word) + 587 * unat (100 :: 8 word)
       + 114 * unat (50 :: 8 word)) mod 1000 \<noteq> 500
   \<and> calculateSharpness (uniform_image 3 3 200 100 50 255) 3 3 = Some 0
   \<and> calculateBrightness (uniform_image 3 3 200 100 50 255) = Some 124
   \<and> calculateContrast (uniform_image 3 3 200 100 50 255) = Some 0"
proof -
  have m: "(299 * unat (200 :: 8 word) + 587 * unat (100 :: 8 word)
       + 114 * unat (50 :: 8 word)) mod 1000 \<noteq> 500"
    by simp
  have r: "Math_round (luma_of 200 100 50) = 124"
    by (simp add: luma_of_def Math_round_def)
  have "(3::nat) \<le> 3" by simp
  from uniform_image_metrics [OF this this, of 200 100 50 255] m r show ?thesis
    by simp
qed

text \<open>
  The specification's wording fails twice. A uniform image of the colour
  (1, 0, 0) has luma 0.299 and brightness 0; one of the colour (0, 0, 250) has luma
  28.5, brightness 29 and contrast 1.
\<close>

theorem uniform_image_counterexample:
  "luma_of 1 0 0 = 299 / 1000
   \<and> calculateBrightness (uniform_image 3 3 1 0 0 255) = Some 0
   \<and> calculateBrightness (uniform_image 3 3 1 0 0 255) \<noteq> Some (luma_of 1 0 0)
   \<and> calculateContrast (uniform_image 3 3 0 0 250 255) = Some 1
   \<and> calculateContrast (uniform_image 3 3 0 0 250 255) \<noteq> Some 0"
proof -
  have wf: "length (uniform_image 3 3 r g b a) = 4 * (3 * 3)" for r g b a
    by (rule length_uniform_image)
  have n: "(0::nat) < 3 * 3" by simp
  have l1: "luma_of 1 0 0 = 299 / 1000"
    by (simp add: luma_of_def)
  have "calculateBrightness (uniform_image 3 3 1 0 0 255) = Some (Math_round (luma_of 1 0 0))"
    using calculateBrightness_spec [OF wf n] by (simp only: spec_brightness_uniform [OF n])
  then have b: "calculateBrightness (uniform_image 3 3 1 0 0 255) = Some 0"
    by (simp add: l1 Math_round_def)
  have l2: "luma_of 0 0 250 = 57 / 2"
    by (simp add: luma_of_def)
  have "calculateContrast (uniform_image 3 3 0 0 250 255)
      = Some (Math_round \<bar>luma_of 0 0 250 - Math_round (luma_of 0 0 250)\<bar>)"
    using calculateContrast_spec [OF wf n] by (simp only: spec_contrast_uniform [OF n])
  then have c: "calculateContrast (uniform_image 3 3 0 0 250 255) = Some 1"
    by (simp add: l2 Math_round_def)
  from l1 b c show ?thesis
    by simp
qed

section \<open>Properties of the sharpness in double precision\<close>

subsection \<open>Rounding to a double\<close>

lemma round_ties_even_eq:
  assumes "\<bar>y - real_of_int k\<bar> < 1 / 2"
  shows "round_ties_even y = k"
proof (cases "real_of_int k \<le> y")
  case True
  with assms have "\<lfloor>y\<rfloor> = k"
    by (intro floor_unique) linarith+
  with assms True show ?thesis
    by (simp add: round_ties_even_def Let_def)
next
  case False
  with assms have "real_of_int k - 1 \<le> y" and "y < real_of_int k"
    and u: "1 / 2 < y - (real_of_int k - 1)"
    by linarith+
  then have f: "\<lfloor>y\<rfloor> = k - 1"
    by (intro floor_unique) simp_all
  from u have "\<not> y - real_of_int (k - 1) < 1 / 2" "1 / 2 < y - real_of_int (k - 1)"
    by simp_all
  with f show ?thesis
    by (simp add: round_ties_even_def Let_def)
qed

lemma round_ties_even_of_int: "round_ties_even (real_of_int k) = k"
  by (rule round_ties_even_eq) simp

lemma round_ties_even_ge:
  assumes "real_of_int a \<le> y"
  shows "a \<le> round_ties_even y"
proof -
  have "a \<le> \<lfloor>y\<rfloor>"
    using assms by (simp add: le_floor_iff)
  then show ?thesis
    by (simp add: round_ties_even_def Let_def)
qed

lemma round_ties_even_le:
  assumes "y \<le> real_of_int b"
  shows "round_ties_even y \<le> b"
proof (cases "y = real_of_int \<lfloor>y\<rfloor>")
  case True
  then have "y - real_of_int \<lfloor>y\<rfloor> < 1 / 2"
    by simp
  then have "round_ties_even y = \<lfloor>y\<rfloor>"
    by (simp add: round_ties_even_def Let_def)
  moreover have "\<lfloor>y\<rfloor> \<le> b"
    using assms by (simp add: floor_le_iff)
  ultimately show ?thesis
    by simp
next
  case False
  then have "real_of_int \<lfloor>y\<rfloor> \<noteq> y"
    by auto
  then have "real_of_int \<lfloor>y\<rfloor> < y"
    using of_int_floor_le [of y] by (rule order.not_eq_order_implies_strict)
  with assms have "real_of_int \<lfloor>y\<rfloor> < real_of_int b"
    by simp
  then have "\<lfloor>y\<rfloor> < b"
    by (simp only: of_int_less_iff)
  then have "\<lfloor>y\<rfloor> + 1 \<le> b"
    by simp
  moreover have "round_ties_even y \<le> \<lfloor>y\<rfloor> + 1"
    by (simp add: round_ties_even_def Let_def)
  ultimately show ?thesis
    by simp
qed

lemma binade_iff:
  assumes "x \<noteq> 0"
  shows "binade x = e \<longleftrightarrow> 2 powi e \<le> \<bar>x\<bar> \<and> \<bar>x\<bar> < 2 powi (e + 1)"
proof -
  have r: "(2::real) powr real_of_int n = 2 powi n" for n
    by (rule powr_real_of_int') simp_all
  have "(\<lfloor>log 2 \<bar>x\<bar>\<rfloor> = e)
      = (2 powr real_of_int e \<le> \<bar>x\<bar> \<and> \<bar>x\<bar> < 2 powr real_of_int (e + 1))"
    by (rule floor_log_eq_powr_iff) (use assms in simp_all)
  then show ?thesis
    unfolding binade_def by (simp only: r)
qed

lemma fl_zero [simp]: "fl 0 = 0"
  by (simp add: fl_def)

lemma fl_minus: "fl (- x) = - fl x"
  by (simp add: fl_def ulp_def binade_def)

lemma fl_at:
  assumes "2 powi e \<le> \<bar>x\<bar>" and "\<bar>x\<bar> < 2 powi (e + 1)"
  shows "fl x = sgn x * (real_of_int (round_ties_even (\<bar>x\<bar> / 2 powi (e - 52))) * 2 powi (e - 52))"
proof -
  have "(0::real) < 2 powi e"
    by (rule zero_less_power_int) simp
  have nz: "x \<noteq> 0"
  proof
    assume "x = 0"
    with assms(1) have "2 powi e \<le> (0::real)"
      by simp
    with \<open>0 < 2 powi e\<close> show False
      by linarith
  qed
  then have "binade x = e"
    using assms by (simp add: binade_iff)
  with nz show ?thesis
    by (simp add: fl_def ulp_def)
qed

lemma significand_bounds:
  fixes x :: real
  assumes "2 powi e \<le> \<bar>x\<bar>" and "\<bar>x\<bar> < 2 powi (e + 1)"
  shows "2 ^ 52 \<le> \<bar>x\<bar> / 2 powi (e - 52)" and "\<bar>x\<bar> / 2 powi (e - 52) < 2 ^ 53"
proof -
  have p: "(0::real) < 2 powi e"
    by (rule zero_less_power_int) simp
  have d: "(2::real) powi (e - 52) = 2 powi e / 2 ^ 52"
    by (simp add: power_int_diff)
  have s: "(2::real) powi (e + 1) = 2 * 2 powi e"
    by (simp add: power_int_add)
  show "2 ^ 52 \<le> \<bar>x\<bar> / 2 powi (e - 52)"
    unfolding d using assms(1) p by (simp add: field_simps)
  show "\<bar>x\<bar> / 2 powi (e - 52) < 2 ^ 53"
    unfolding d using assms(2) p unfolding s by (simp add: field_simps)
qed

lemma fl_exact_pos:
  assumes "2 ^ 52 \<le> j" and "j < 2 ^ 53"
  shows "fl (real_of_int j * 2 powi t) = real_of_int j * 2 powi t"
proof -
  have p: "(0::real) < 2 powi t"
    by (rule zero_less_power_int) simp
  have "real_of_int (2 ^ 52) \<le> real_of_int j" "real_of_int j < real_of_int (2 ^ 53)"
    using assms by (simp_all only: of_int_le_iff of_int_less_iff)
  then have j: "2 ^ 52 \<le> real_of_int j" "real_of_int j < 2 ^ 53"
    by simp_all
  have "(0::real) < 2 ^ 52"
    by simp
  with j(1) have jp: "0 < real_of_int j"
    by linarith
  let ?x = "real_of_int j * 2 powi t"
  have xp: "0 < ?x"
    using jp p by simp
  then have a: "\<bar>?x\<bar> = ?x" and g: "sgn ?x = 1"
    by simp_all
  have lo: "2 powi (t + 52) \<le> \<bar>?x\<bar>"
    unfolding a using j(1) p by (simp add: power_int_add)
  have hi: "\<bar>?x\<bar> < 2 powi (t + 52 + 1)"
    unfolding a using j(2) p by (simp add: power_int_add)
  have "fl ?x = sgn ?x * (real_of_int (round_ties_even (\<bar>?x\<bar> / 2 powi (t + 52 - 52)))
      * 2 powi (t + 52 - 52))"
    using lo hi by (rule fl_at)
  also have "\<bar>?x\<bar> / 2 powi (t + 52 - 52) = real_of_int j"
    unfolding a using p by simp
  finally show ?thesis
    by (simp only: round_ties_even_of_int g add_diff_cancel mult_1)
qed

lemma fl_exact_top: "fl (2 ^ 53 * 2 powi t) = 2 ^ 53 * 2 powi t"
proof -
  have "fl (real_of_int (2 ^ 52) * 2 powi (t + 1)) = real_of_int (2 ^ 52) * 2 powi (t + 1)"
    by (rule fl_exact_pos) simp_all
  then show ?thesis
    by (simp add: power_int_add)
qed

text \<open>Rounding a double again changes nothing.\<close>

lemma fl_fl: "fl (fl x) = fl x"
proof (cases "x = 0")
  case True
  then show ?thesis by simp
next
  case False
  define e where "e = binade x"
  define k where "k = round_ties_even (\<bar>x\<bar> / 2 powi (e - 52))"
  have b: "2 powi e \<le> \<bar>x\<bar>" "\<bar>x\<bar> < 2 powi (e + 1)"
    using binade_iff [OF False, of e] by (simp_all add: e_def)
  have f: "fl x = sgn x * (real_of_int k * 2 powi (e - 52))"
    unfolding k_def using b by (rule fl_at)
  have "real_of_int (2 ^ 52) \<le> \<bar>x\<bar> / 2 powi (e - 52)"
    using significand_bounds(1) [OF b] by simp
  then have k1: "2 ^ 52 \<le> k"
    unfolding k_def by (rule round_ties_even_ge)
  have "\<bar>x\<bar> / 2 powi (e - 52) \<le> real_of_int (2 ^ 53)"
    using significand_bounds(2) [OF b] by simp
  then have k2: "k \<le> 2 ^ 53"
    unfolding k_def by (rule round_ties_even_le)
  have m: "fl (real_of_int k * 2 powi (e - 52)) = real_of_int k * 2 powi (e - 52)"
  proof (cases "k < 2 ^ 53")
    case True
    with k1 show ?thesis
      by (rule fl_exact_pos)
  next
    case False
    with k2 have "k = 2 ^ 53"
      by simp
    then show ?thesis
      using fl_exact_top [of "e - 52"] by simp
  qed
  from False have "sgn x = 1 \<or> sgn x = - 1"
    by (simp add: sgn_real_def)
  then show ?thesis
  proof
    assume "sgn x = 1"
    then show ?thesis
      using m by (simp add: f)
  next
    assume "sgn x = - 1"
    then show ?thesis
      using m by (simp add: f fl_minus)
  qed
qed

lemma fl_nonneg:
  assumes "0 \<le> x"
  shows "0 \<le> fl x"
proof (cases "x = 0")
  case True
  then show ?thesis by simp
next
  case False
  have u: "0 < ulp x"
    unfolding ulp_def by (rule zero_less_power_int) simp
  then have "0 \<le> \<bar>x\<bar> / ulp x"
    by simp
  then have "0 \<le> round_ties_even (\<bar>x\<bar> / ulp x)"
    using round_ties_even_ge [of 0] by simp
  then show ?thesis
    using False assms u by (simp add: fl_def)
qed

text \<open>Evaluating a rounding: the significand \<open>k\<close> and the exponent are given.\<close>

lemma fl_eval:
  assumes "2 ^ 52 \<le> \<bar>x\<bar> * 2 ^ n" and "\<bar>x\<bar> * 2 ^ n < 2 ^ 53"
    and "\<bar>\<bar>x\<bar> * 2 ^ n - real_of_int k\<bar> < 1 / 2"
    and "y = sgn x * real_of_int k / 2 ^ n"
  shows "fl x = y"
proof -
  have d: "(2::real) powi (52 - int n) = 2 ^ 52 / 2 ^ n"
    by (simp add: power_int_diff)
  have s: "(2::real) powi (52 - int n + 1) = 2 ^ 53 / 2 ^ n"
    by (simp add: power_int_diff power_int_add)
  have lo: "2 powi (52 - int n) \<le> \<bar>x\<bar>"
    unfolding d using assms(1) by (simp add: field_simps)
  have hi: "\<bar>x\<bar> < 2 powi (52 - int n + 1)"
    unfolding s using assms(2) by (simp add: field_simps)
  have p: "(2::real) powi (52 - int n - 52) = 1 / 2 ^ n"
    by (simp add: power_int_minus field_simps)
  have "round_ties_even (\<bar>x\<bar> * 2 ^ n) = k"
    using assms(3) by (rule round_ties_even_eq)
  then show ?thesis
    unfolding fl_at [OF lo hi] p assms(4) by simp
qed

lemma fl_sqrt_eval:
  assumes "2 ^ 52 < k" and "k < 2 ^ 53"
    and "(real_of_int k - 1 / 2)\<^sup>2 < v * 4 ^ n"
    and "v * 4 ^ n < (real_of_int k + 1 / 2)\<^sup>2"
    and "y = real_of_int k / 2 ^ n"
  shows "fl (sqrt v) = y"
proof -
  have "2 ^ 52 + 1 \<le> k" and "k \<le> 2 ^ 53 - 1"
    using assms(1,2) by simp_all
  then have "real_of_int (2 ^ 52 + 1) \<le> real_of_int k"
    and "real_of_int k \<le> real_of_int (2 ^ 53 - 1)"
    by (simp_all only: of_int_le_iff)
  then have k1: "2 ^ 52 + 1 \<le> real_of_int k" and k2: "real_of_int k \<le> 2 ^ 53 - 1"
    by simp_all
  have "(4::real) ^ n = (2 ^ n)\<^sup>2"
    by (simp add: power2_eq_square flip: power_mult_distrib)
  then have u: "sqrt (v * 4 ^ n) = sqrt v * 2 ^ n"
    by (simp add: real_sqrt_mult)
  have lo: "real_of_int k - 1 / 2 < sqrt (v * 4 ^ n)"
    using assms(3) by (rule real_less_rsqrt)
  have "0 \<le> v * 4 ^ n"
    using assms(3) by (meson less_eq_real_def order_trans zero_le_power2)
  then have hi: "sqrt (v * 4 ^ n) < real_of_int k + 1 / 2"
    using assms(4) k1 by (intro real_less_lsqrt) simp_all
  have "(0::real) < 2 ^ 52"
    by simp
  then have "0 < sqrt v * 2 ^ n"
    using lo k1 u by linarith
  then have "0 < sqrt v"
    by (simp add: zero_less_mult_iff)
  then have a: "\<bar>sqrt v\<bar> = sqrt v" and g: "sgn (sqrt v) = 1"
    by simp_all
  show ?thesis
  proof (rule fl_eval)
    show "2 ^ 52 \<le> \<bar>sqrt v\<bar> * 2 ^ n"
      unfolding a using lo k1 u by linarith
    show "\<bar>sqrt v\<bar> * 2 ^ n < 2 ^ 53"
      unfolding a using hi k2 u by linarith
    show "\<bar>\<bar>sqrt v\<bar> * 2 ^ n - real_of_int k\<bar> < 1 / 2"
      unfolding a using lo hi u by linarith
    show "y = sgn (sqrt v) * real_of_int k / 2 ^ n"
      unfolding g assms(5) by simp
  qed
qed

subsection \<open>The loops of the sharpness\<close>

text \<open>
  The reads of an interior pixel's neighbourhood are all inside the buffer, and a kernel
  entry of 0 adds nothing to a sum that is a double already.
\<close>

lemma luminance64_sample:
  assumes "4 * k + 2 < length data"
  shows "luminance64 data (int (4 * k))
     = Some (fadd (fadd (fmul (fl 0.299) (real (unat (data ! (4 * k)))))
                        (fmul (fl 0.587) (real (unat (data ! (4 * k + 1))))))
                  (fmul (fl 0.114) (real (unat (data ! (4 * k + 2))))))"
proof -
  have e0: "element data (int (4 * k)) = Some (real (unat (data ! (4 * k))))"
    by (rule element_nat) (use assms in simp)
  have e1: "element data (int (4 * k) + 1) = Some (real (unat (data ! (4 * k + 1))))"
    using element_nat [of "4 * k + 1" data] assms by (simp add: add.commute)
  have e2: "element data (int (4 * k) + 2) = Some (real (unat (data ! (4 * k + 2))))"
    using element_nat [of "4 * k + 2" data] assms by (simp add: add.commute)
  show ?thesis
    unfolding luminance64_def e0 e1 e2 by simp
qed

lemma gray64_at:
  assumes "length data = 4 * (width * height)" and "x < width" and "y < height"
    and "i = int (4 * (y * width + x))"
  shows "getGrayscale64 data i = Some (pixel_luma64 data width x y)"
proof -
  have "y * width + x < width * height"
    using assms(2,3) by (rule pixel_in_buffer)
  then have b: "4 * (y * width + x) + 2 < length data"
    using assms(1) by simp
  then have "4 * (y * width + x) < length data"
    by simp
  then have "\<not> (int (4 * (y * width + x)) < 0
      \<or> int (4 * (y * width + x)) \<ge> int (length data))"
    by (simp only: of_nat_less_0_iff of_nat_le_iff) simp
  then show ?thesis
    unfolding getGrayscale64_def pixel_luma64_def Let_def assms(4)
    by (simp only: if_False luminance64_sample [OF b])
qed

lemma sobel_gx64_interior:
  assumes wf: "length data = 4 * (w * h)" and x: "Suc (Suc x) < w" and y: "Suc (Suc y) < h"
  shows "sobel_gx64 data (int w) ((int (Suc y) * int w + int (Suc x)) * 4)
     = Some (convolve64 sobel_kernel data w (Suc x) (Suc y))"
proof -
  let ?idx = "(int (Suc y) * int w + int (Suc x)) * 4"
  have a: "getGrayscale64 data (?idx - int w * 4 - 4) = Some (pixel_luma64 data w x y)"
    by (rule gray64_at [OF wf]) (use x y in \<open>simp_all add: algebra_simps\<close>)
  have b: "getGrayscale64 data (?idx - int w * 4 + 4) = Some (pixel_luma64 data w (Suc (Suc x)) y)"
    by (rule gray64_at [OF wf]) (use x y in \<open>simp_all add: algebra_simps\<close>)
  have c: "getGrayscale64 data (?idx - 4) = Some (pixel_luma64 data w x (Suc y))"
    by (rule gray64_at [OF wf]) (use x y in \<open>simp_all add: algebra_simps\<close>)
  have d: "getGrayscale64 data (?idx + 4) = Some (pixel_luma64 data w (Suc (Suc x)) (Suc y))"
    by (rule gray64_at [OF wf]) (use x y in \<open>simp_all add: algebra_simps\<close>)
  have e: "getGrayscale64 data (?idx + int w * 4 - 4) = Some (pixel_luma64 data w x (Suc (Suc y)))"
    by (rule gray64_at [OF wf]) (use x y in \<open>simp_all add: algebra_simps\<close>)
  have f: "getGrayscale64 data (?idx + int w * 4 + 4)
      = Some (pixel_luma64 data w (Suc (Suc x)) (Suc (Suc y)))"
    by (rule gray64_at [OF wf]) (use x y in \<open>simp_all add: algebra_simps\<close>)
  show ?thesis
    unfolding sobel_gx64_def a b c d e f
    by (simp add: convolve64_def sobel_kernel_def upt3 fadd_def fmul_def fl_fl)
qed

lemma sobel_gy64_interior:
  assumes wf: "length data = 4 * (w * h)" and x: "Suc (Suc x) < w" and y: "Suc (Suc y) < h"
  shows "sobel_gy64 data (int w) ((int (Suc y) * int w + int (Suc x)) * 4)
     = Some (convolve64 (transpose sobel_kernel) data w (Suc x) (Suc y))"
proof -
  let ?idx = "(int (Suc y) * int w + int (Suc x)) * 4"
  have a: "getGrayscale64 data (?idx - int w * 4 - 4) = Some (pixel_luma64 data w x y)"
    by (rule gray64_at [OF wf]) (use x y in \<open>simp_all add: algebra_simps\<close>)
  have b: "getGrayscale64 data (?idx - int w * 4) = Some (pixel_luma64 data w (Suc x) y)"
    by (rule gray64_at [OF wf]) (use x y in \<open>simp_all add: algebra_simps\<close>)
  have c: "getGrayscale64 data (?idx - int w * 4 + 4) = Some (pixel_luma64 data w (Suc (Suc x)) y)"
    by (rule gray64_at [OF wf]) (use x y in \<open>simp_all add: algebra_simps\<close>)
  have d: "getGrayscale64 data (?idx + int w * 4 - 4) = Some (pixel_luma64 data w x (Suc (Suc y)))"
    by (rule gray64_at [OF wf]) (use x y in \<open>simp_all add: algebra_simps\<close>)
  have e: "getGrayscale64 data (?idx + int w * 4) = Some (pixel_luma64 data w (Suc x) (Suc (Suc y)))"
    by (rule gray64_at [OF wf]) (use x y in \<open>simp_all add: algebra_simps\<close>)
  have f: "getGrayscale64 data (?idx + int w * 4 + 4)
      = Some (pixel_luma64 data w (Suc (Suc x)) (Suc (Suc y)))"
    by (rule gray64_at [OF wf]) (use x y in \<open>simp_all add: algebra_simps\<close>)
  show ?thesis
    unfolding sobel_gy64_def a b c d e f transposed_kernel
    by (simp add: convolve64_def upt3 fadd_def fmul_def fl_fl)
qed

lemma sharpness_step64_interior:
  assumes wf: "length data = 4 * (w * h)"
    and "0 < x" and "Suc x < w" and "0 < y" and "Suc y < h"
  shows "sharpness_step64 data w y x (Some s, c)
     = (Some (fadd s (magnitude64 data w x y)), Suc c)"
proof -
  from assms(2,4) obtain x' y' where xy: "x = Suc x'" "y = Suc y'"
    by (metis Suc_pred)
  have x': "Suc (Suc x') < w" and y': "Suc (Suc y') < h"
    using assms(3,5) xy by simp_all
  let ?gx = "convolve64 sobel_kernel data w x y"
  let ?gy = "convolve64 (transpose sobel_kernel) data w x y"
  have "0 \<le> fmul ?gx ?gx" and "0 \<le> fmul ?gy ?gy"
    unfolding fmul_def by (rule fl_nonneg, simp)+
  then have "0 \<le> fadd (fmul ?gx ?gx) (fmul ?gy ?gy)"
    unfolding fadd_def by (intro fl_nonneg) simp
  then have m: "Math_sqrt64 (fadd (fmul ?gx ?gx) (fmul ?gy ?gy)) = Some (magnitude64 data w x y)"
    by (simp add: Math_sqrt64_def magnitude64_def Let_def not_less)
  show ?thesis
    unfolding sharpness_step64_def Let_def xy
      sobel_gx64_interior [OF wf x' y'] sobel_gy64_interior [OF wf x' y']
    using m by (simp add: xy)
qed

lemma fold_accumulate64:
  assumes "\<And>x s c. x \<in> set xs \<Longrightarrow> f x (Some s, c) = (Some (fadd s (g x)), c + n)"
  shows "fold f xs (Some s, c) = (Some (foldl fadd s (map g xs)), c + n * length xs)"
  using assms
proof (induction xs arbitrary: s c)
  case Nil
  then show ?case by simp
next
  case (Cons x xs)
  have "fold f (x # xs) (Some s, c) = fold f xs (Some (fadd s (g x)), c + n)"
    using Cons.prems [of x s c] by simp
  also have "\<dots> = (Some (foldl fadd (fadd s (g x)) (map g xs)), c + n + n * length xs)"
    by (rule Cons.IH) (simp add: Cons.prems)
  finally show ?case
    by (simp add: add.assoc)
qed

lemma fold_rows64:
  assumes "\<And>y s c. y \<in> set ys \<Longrightarrow> f y (Some s, c) = (Some (foldl fadd s (g y)), c + n)"
  shows "fold f ys (Some s, c) = (Some (foldl fadd s (concat (map g ys))), c + n * length ys)"
  using assms
proof (induction ys arbitrary: s c)
  case Nil
  then show ?case by simp
next
  case (Cons y ys)
  have "fold f (y # ys) (Some s, c) = fold f ys (Some (foldl fadd s (g y)), c + n)"
    using Cons.prems [of y s c] by simp
  also have "\<dots> = (Some (foldl fadd (foldl fadd s (g y)) (concat (map g ys))),
      c + n + n * length ys)"
    by (rule Cons.IH) (simp add: Cons.prems)
  finally show ?case
    by (simp add: add.assoc)
qed

text \<open>
  On an image of at least 3 by 3 pixels whose buffer has four bytes for each pixel,
  the double-precision sharpness is the rounded mean of the gradient magnitudes, with
  the sums taken in the order of the rows.
\<close>

lemma calculateSharpness64_spec:
  assumes wf: "length data = 4 * (w * h)" and "3 \<le> w" and "3 \<le> h"
  shows "calculateSharpness64 data w h = Some (spec_sharpness64 data w h)"
proof -
  have row: "fold (sharpness_step64 data w y) [1..<w - 1] (Some s, c)
      = (Some (foldl fadd s (map (\<lambda>x. magnitude64 data w x y) [1..<w - 1])), c + (w - 2))"
    if "y \<in> set [1..<h - 1]" for y s c
  proof -
    have y: "0 < y" "Suc y < h"
      using that by auto
    have "fold (sharpness_step64 data w y) [1..<w - 1] (Some s, c)
        = (Some (foldl fadd s (map (\<lambda>x. magnitude64 data w x y) [1..<w - 1])),
           c + 1 * length [1..<w - 1])"
    proof (rule fold_accumulate64)
      fix x s' c'
      assume "x \<in> set [1..<w - 1]"
      then have "0 < x" "Suc x < w" by auto
      then show "sharpness_step64 data w y x (Some s', c')
          = (Some (fadd s' (magnitude64 data w x y)), c' + 1)"
        using sharpness_step64_interior [OF wf _ _ y] by simp
    qed
    moreover have "length [1..<w - 1] = w - 2"
      by simp
    ultimately show ?thesis by simp
  qed
  have "fold (\<lambda>y. fold (sharpness_step64 data w y) [1..<w - 1]) [1..<h - 1] (Some 0, 0)
      = (Some (foldl fadd 0
           (concat (map (\<lambda>y. map (\<lambda>x. magnitude64 data w x y) [1..<w - 1]) [1..<h - 1]))),
         0 + (w - 2) * length [1..<h - 1])"
    by (rule fold_rows64) (rule row)
  moreover have "length [1..<h - 1] = h - 2"
    by simp
  ultimately have loops:
    "fold (\<lambda>y. fold (sharpness_step64 data w y) [1..<w - 1]) [1..<h - 1] (Some 0, 0)
      = (Some (foldl fadd 0
           (concat (map (\<lambda>y. map (\<lambda>x. magnitude64 data w x y) [1..<w - 1]) [1..<h - 1]))),
         (w - 2) * (h - 2))"
    by simp
  have "0 < (w - 2) * (h - 2)"
    using assms(2,3) by simp
  then show ?thesis
    unfolding calculateSharpness64_def loops by (simp add: spec_sharpness64_def)
qed

text \<open>With fewer than 3 columns or rows the loops do nothing, rounded or not.\<close>

lemma calculateSharpness64_small:
  assumes "w < 3 \<or> h < 3"
  shows "calculateSharpness64 data w h = Some 0"
proof -
  have "fold (\<lambda>y. fold (sharpness_step64 data w y) [1..<w - 1]) [1..<h - 1] (Some 0, 0)
      = (Some 0, 0)"
  proof (cases "w < 3")
    case True
    then have e: "[1..<w - 1] = []" by simp
    have "fold (\<lambda>y. fold (sharpness_step64 data w y) [1..<w - 1]) [1..<h - 1] = id"
      by (rule fold_id) (simp only: e fold_Nil)
    then show ?thesis by (simp only: id_apply)
  next
    case False
    with assms have e: "[1..<h - 1] = []" by simp
    show ?thesis by (simp only: e fold_Nil id_apply)
  qed
  then show ?thesis
    by (simp add: calculateSharpness64_def Math_round_def)
qed

subsection \<open>Two images, evaluated\<close>

text \<open>
  The roundings that the two images need. For each, the significand \<open>k\<close> and the
  exponent are given, and \<open>k\<close> is checked to be the integer nearest to the scaled
  argument.
\<close>

lemma double_roundings:
  "fl (57 / 500) = 8214565720323785 / 72057594037927936"
  "fl (299 / 1000) = 5386305154335113 / 18014398509481984"
  "fl (24643697160971355 / 72057594037927936) = 6160924290242839 / 18014398509481984"
  "fl (587 / 1000) = 2643612981266481 / 4503599627370496"
  "fl (2974064603924791 / 562949953421312) = 2974064603924791 / 562949953421312"
  "fl (23792516831398329 / 4503599627370496) = 2974064603924791 / 562949953421312"
  "fl (6333186975989759 / 1125899906842624) = 6333186975989759 / 1125899906842624"
  "fl (101330991615836151 / 18014398509481984) = 6333186975989759 / 1125899906842624"
  "fl (6333186975989759 / 562949953421312) = 6333186975989759 / 562949953421312"
  "fl (8214565720323785 / 562949953421312) = 8214565720323785 / 562949953421312"
  "fl (4208050901824307 / 281474976710656) = 4208050901824307 / 281474976710656"
  "fl (134657628858377825 / 9007199254740992) = 4208050901824307 / 281474976710656"
  "fl (275476182006998487 / 18014398509481984) = 8608630687718703 / 562949953421312"
  "fl (8608630687718703 / 562949953421312) = 8608630687718703 / 562949953421312"
  "fl (4749890231992319 / 281474976710656) = 4749890231992319 / 281474976710656"
  "fl (18999560927969277 / 1125899906842624) = 4749890231992319 / 281474976710656"
  "fl (25332747903959035 / 1125899906842624) = 6333186975989759 / 281474976710656"
  "fl (6333186975989759 / 281474976710656) = 6333186975989759 / 281474976710656"
  "fl (134657628858377825 / 4503599627370496) = 4208050901824307 / 140737488355328"
  "fl (8608630687718703 / 281474976710656) = 8608630687718703 / 281474976710656"
  "fl (25825892063156109 / 562949953421312) = 6456473015789027 / 140737488355328"
  "fl (3402860063551601 / 70368744177664) = 3402860063551601 / 70368744177664"
  "fl (34434522750874811 / 562949953421312) = 8608630687718703 / 140737488355328"
  "fl (8608630687718703 / 140737488355328) = 8608630687718703 / 140737488355328"
  "fl (66090324531662025 / 562949953421312) = 8261290566457753 / 70368744177664"
  "fl (20730632034739813 / 140737488355328) = 5182658008684953 / 35184372088832"
  "fl (91137093859283033 / 562949953421312) = 2848034183102595 / 17592186044416"
  "fl (6647536601351343 / 35184372088832) = 6647536601351343 / 35184372088832"
  "fl (74108522317532189370794456002209 / 316912650057057350374175801344) = 4113849389893575 / 17592186044416"
  "fl (2848034183102595 / 8796093022208) = 2848034183102595 / 8796093022208"
  "fl (5796821585463443 / 17592186044416) = 5796821585463443 / 17592186044416"
  "fl (26590146405405373 / 70368744177664) = 6647536601351343 / 17592186044416"
  "fl (8906044184985597 / 17592186044416) = 8906044184985597 / 17592186044416"
  "fl (40109257272846308240357672878081 / 79228162514264337593543950336) = 8906044184985597 / 17592186044416"
  "fl (41686043803611853292835373606729 / 19807040628566084398385987584) = 72313758806723 / 34359738368"
  "fl (41138493898935751 / 17592186044416) = 5142311737366969 / 2199023255552"
  "fl (74108522317532189370794456002209 / 19807040628566084398385987584) = 4113849389893575 / 1099511627776"
  "fl (8111298708120865623020295734025 / 77371252455336267181195264) = 3602140234147229 / 34359738368"
  "fl (119382336882604903 / 1099511627776) = 3730698027581403 / 34359738368"
  subgoal by (rule fl_eval [where n = 56 and k = 8214565720323785]) simp_all
  subgoal by (rule fl_eval [where n = 54 and k = 5386305154335113]) simp_all
  subgoal by (rule fl_eval [where n = 54 and k = 6160924290242839]) simp_all
  subgoal by (rule fl_eval [where n = 53 and k = 5287225962532962]) simp_all
  subgoal by (rule fl_eval [where n = 50 and k = 5948129207849582]) simp_all
  subgoal by (rule fl_eval [where n = 50 and k = 5948129207849582]) simp_all
  subgoal by (rule fl_eval [where n = 50 and k = 6333186975989759]) simp_all
  subgoal by (rule fl_eval [where n = 50 and k = 6333186975989759]) simp_all
  subgoal by (rule fl_eval [where n = 49 and k = 6333186975989759]) simp_all
  subgoal by (rule fl_eval [where n = 49 and k = 8214565720323785]) simp_all
  subgoal by (rule fl_eval [where n = 49 and k = 8416101803648614]) simp_all
  subgoal by (rule fl_eval [where n = 49 and k = 8416101803648614]) simp_all
  subgoal by (rule fl_eval [where n = 49 and k = 8608630687718703]) simp_all
  subgoal by (rule fl_eval [where n = 49 and k = 8608630687718703]) simp_all
  subgoal by (rule fl_eval [where n = 48 and k = 4749890231992319]) simp_all
  subgoal by (rule fl_eval [where n = 48 and k = 4749890231992319]) simp_all
  subgoal by (rule fl_eval [where n = 48 and k = 6333186975989759]) simp_all
  subgoal by (rule fl_eval [where n = 48 and k = 6333186975989759]) simp_all
  subgoal by (rule fl_eval [where n = 48 and k = 8416101803648614]) simp_all
  subgoal by (rule fl_eval [where n = 48 and k = 8608630687718703]) simp_all
  subgoal by (rule fl_eval [where n = 47 and k = 6456473015789027]) simp_all
  subgoal by (rule fl_eval [where n = 47 and k = 6805720127103202]) simp_all
  subgoal by (rule fl_eval [where n = 47 and k = 8608630687718703]) simp_all
  subgoal by (rule fl_eval [where n = 47 and k = 8608630687718703]) simp_all
  subgoal by (rule fl_eval [where n = 46 and k = 8261290566457753]) simp_all
  subgoal by (rule fl_eval [where n = 45 and k = 5182658008684953]) simp_all
  subgoal by (rule fl_eval [where n = 45 and k = 5696068366205190]) simp_all
  subgoal by (rule fl_eval [where n = 45 and k = 6647536601351343]) simp_all
  subgoal by (rule fl_eval [where n = 45 and k = 8227698779787150]) simp_all
  subgoal by (rule fl_eval [where n = 44 and k = 5696068366205190]) simp_all
  subgoal by (rule fl_eval [where n = 44 and k = 5796821585463443]) simp_all
  subgoal by (rule fl_eval [where n = 44 and k = 6647536601351343]) simp_all
  subgoal by (rule fl_eval [where n = 44 and k = 8906044184985597]) simp_all
  subgoal by (rule fl_eval [where n = 44 and k = 8906044184985597]) simp_all
  subgoal by (rule fl_eval [where n = 41 and k = 4628080563630272]) simp_all
  subgoal by (rule fl_eval [where n = 41 and k = 5142311737366969]) simp_all
  subgoal by (rule fl_eval [where n = 41 and k = 8227698779787150]) simp_all
  subgoal by (rule fl_eval [where n = 36 and k = 7204280468294458]) simp_all
  subgoal by (rule fl_eval [where n = 36 and k = 7461396055162806]) simp_all
  done

lemma tie_image_lumas64:
  "pixel_luma64 tie_image 3 0 0 = 0"
  "pixel_luma64 tie_image 3 (Suc 0) 0 = 0"
  "pixel_luma64 tie_image 3 2 0 = 6333186975989759 / 1125899906842624"
  "pixel_luma64 tie_image 3 0 (Suc 0) = 0"
  "pixel_luma64 tie_image 3 (Suc 0) (Suc 0) = 0"
  "pixel_luma64 tie_image 3 2 (Suc 0) = 6333186975989759 / 1125899906842624"
  "pixel_luma64 tie_image 3 0 2 = 0"
  "pixel_luma64 tie_image 3 (Suc 0) 2 = 0"
  "pixel_luma64 tie_image 3 2 2 = 6333186975989759 / 1125899906842624"
  by (simp_all add: pixel_luma64_def tie_image_def fadd_def fmul_def double_roundings)

lemma tie_image_sharpness64: "spec_sharpness64 tie_image 3 3 = 22"
proof -
  have gx1: "convolve64 sobel_kernel tie_image 3 (Suc 0) (Suc 0) = 6333186975989759 / 281474976710656"
    by (simp add: convolve64_def sobel_kernel_def upt3 numeral_2_eq_2 [symmetric] numeral_3_eq_3 [symmetric]
        tie_image_lumas64 fadd_def fmul_def fl_minus double_roundings)
  have gy1: "convolve64 (transpose sobel_kernel) tie_image 3 (Suc 0) (Suc 0) = 0"
    by (simp add: convolve64_def transposed_kernel upt3 numeral_2_eq_2 [symmetric] numeral_3_eq_3 [symmetric]
        tie_image_lumas64 fadd_def fmul_def fl_minus double_roundings)
  have v1: "fadd (fmul (6333186975989759 / 281474976710656) (6333186975989759 / 281474976710656)) (fmul (0) (0)) = 8906044184985597 / 17592186044416"
    by (simp add: fadd_def fmul_def double_roundings)
  have r1: "fl (sqrt (8906044184985597 / 17592186044416)) = 6333186975989759 / 281474976710656"
    by (rule fl_sqrt_eval [where n = 48 and k = 6333186975989759]) (simp_all add: power2_eq_square)
  have m1: "magnitude64 tie_image 3 (Suc 0) (Suc 0) = 6333186975989759 / 281474976710656"
    by (simp only: magnitude64_def Let_def gx1 gy1 v1 r1)
  have xs: "[1..<3 - 1] = [Suc 0]"
    by (simp add: upt_rec)
  have ys: "[1..<3 - 1] = [Suc 0]"
    by (simp add: upt_rec)
  show ?thesis
    unfolding spec_sharpness64_def xs ys
    by (simp add: m1 fadd_def fdiv_def double_roundings Math_round_def)
qed

lemma patch_image_lumas64:
  "pixel_luma64 patch_image 4 0 0 = 8608630687718703 / 562949953421312"
  "pixel_luma64 patch_image 4 (Suc 0) 0 = 8608630687718703 / 562949953421312"
  "pixel_luma64 patch_image 4 2 0 = 8608630687718703 / 562949953421312"
  "pixel_luma64 patch_image 4 3 0 = 8608630687718703 / 562949953421312"
  "pixel_luma64 patch_image 4 0 (Suc 0) = 0"
  "pixel_luma64 patch_image 4 (Suc 0) (Suc 0) = 0"
  "pixel_luma64 patch_image 4 2 (Suc 0) = 2848034183102595 / 17592186044416"
  "pixel_luma64 patch_image 4 3 (Suc 0) = 0"
  "pixel_luma64 patch_image 4 0 2 = 0"
  "pixel_luma64 patch_image 4 (Suc 0) 2 = 0"
  "pixel_luma64 patch_image 4 2 2 = 0"
  "pixel_luma64 patch_image 4 3 2 = 8608630687718703 / 562949953421312"
  by (simp_all add: pixel_luma64_def patch_image_def fadd_def fmul_def double_roundings)

lemma patch_image_sharpness64: "spec_sharpness64 patch_image 4 3 = 189"
proof -
  have gx1: "convolve64 sobel_kernel patch_image 4 (Suc 0) (Suc 0) = 2848034183102595 / 8796093022208"
    by (simp add: convolve64_def sobel_kernel_def upt3 numeral_2_eq_2 [symmetric] numeral_3_eq_3 [symmetric]
        patch_image_lumas64 fadd_def fmul_def fl_minus double_roundings)
  have gy1: "convolve64 (transpose sobel_kernel) patch_image 4 (Suc 0) (Suc 0) = - (8608630687718703 / 140737488355328)"
    by (simp add: convolve64_def transposed_kernel upt3 numeral_2_eq_2 [symmetric] numeral_3_eq_3 [symmetric]
        patch_image_lumas64 fadd_def fmul_def fl_minus double_roundings)
  have v1: "fadd (fmul (2848034183102595 / 8796093022208) (2848034183102595 / 8796093022208)) (fmul (- (8608630687718703 / 140737488355328)) (- (8608630687718703 / 140737488355328))) = 3730698027581403 / 34359738368"
    by (simp add: fadd_def fmul_def double_roundings)
  have r1: "fl (sqrt (3730698027581403 / 34359738368)) = 5796821585463443 / 17592186044416"
    by (rule fl_sqrt_eval [where n = 44 and k = 5796821585463443]) (simp_all add: power2_eq_square)
  have m1: "magnitude64 patch_image 4 (Suc 0) (Suc 0) = 5796821585463443 / 17592186044416"
    by (simp only: magnitude64_def Let_def gx1 gy1 v1 r1)
  have gx2: "convolve64 sobel_kernel patch_image 4 2 (Suc 0) = 8608630687718703 / 562949953421312"
    by (simp add: convolve64_def sobel_kernel_def upt3 numeral_2_eq_2 [symmetric] numeral_3_eq_3 [symmetric]
        patch_image_lumas64 fadd_def fmul_def fl_minus double_roundings)
  have gy2: "convolve64 (transpose sobel_kernel) patch_image 4 2 (Suc 0) = - (6456473015789027 / 140737488355328)"
    by (simp add: convolve64_def transposed_kernel upt3 numeral_2_eq_2 [symmetric] numeral_3_eq_3 [symmetric]
        patch_image_lumas64 fadd_def fmul_def fl_minus double_roundings)
  have v2: "fadd (fmul (8608630687718703 / 562949953421312) (8608630687718703 / 562949953421312)) (fmul (- (6456473015789027 / 140737488355328)) (- (6456473015789027 / 140737488355328))) = 5142311737366969 / 2199023255552"
    by (simp add: fadd_def fmul_def double_roundings)
  have r2: "fl (sqrt (5142311737366969 / 2199023255552)) = 3402860063551601 / 70368744177664"
    by (rule fl_sqrt_eval [where n = 47 and k = 6805720127103202]) (simp_all add: power2_eq_square)
  have m2: "magnitude64 patch_image 4 2 (Suc 0) = 3402860063551601 / 70368744177664"
    by (simp only: magnitude64_def Let_def gx2 gy2 v2 r2)
  have xs: "[1..<4 - 1] = [Suc 0, 2]"
    by (simp add: upt_rec)
  have ys: "[1..<3 - 1] = [Suc 0]"
    by (simp add: upt_rec)
  show ?thesis
    unfolding spec_sharpness64_def xs ys
    by (simp add: m1 m2 fadd_def fdiv_def double_roundings Math_round_def)
qed

text \<open>In exact arithmetic the gradient of the tie image is 22.5, which rounds up.\<close>

lemma tie_image_lumas:
  "pixel_luma tie_image 3 0 0 = 0" "pixel_luma tie_image 3 (Suc 0) 0 = 0"
  "pixel_luma tie_image 3 2 0 = 45 / 8"
  "pixel_luma tie_image 3 0 (Suc 0) = 0" "pixel_luma tie_image 3 2 (Suc 0) = 45 / 8"
  "pixel_luma tie_image 3 0 2 = 0" "pixel_luma tie_image 3 (Suc 0) 2 = 0"
  "pixel_luma tie_image 3 2 2 = 45 / 8"
  by (simp_all add: pixel_luma_def sample_luma_def tie_image_def)

lemma tie_image_sharpness: "spec_sharpness tie_image 3 3 = 23"
proof -
  have gx: "convolve3 sobel_kernel tie_image 3 (Suc 0) (Suc 0) = 45 / 2"
    by (simp add: convolve3_def sobel_kernel_def upt3 tie_image_lumas)
  have gy: "convolve3 (transpose sobel_kernel) tie_image 3 (Suc 0) (Suc 0) = 0"
    by (simp add: convolve3_def transposed_kernel upt3 tie_image_lumas)
  have "sqrt ((45 / 2 :: real)\<^sup>2 + 0\<^sup>2) = 45 / 2"
    by (rule real_sqrt_unique) simp_all
  then have m: "gradient_magnitude tie_image 3 (Suc 0) (Suc 0) = 45 / 2"
    unfolding gradient_magnitude_def gx gy .
  have r: "[1..<3 - 1] = [Suc 0]"
    by (simp add: upt_rec)
  show ?thesis
    unfolding spec_sharpness_def r by (simp add: m Math_round_def)
qed

text \<open>
  C6, as the code has it. For every RGBA image of at least 3 by 3 pixels,
  \<^verbatim>\<open>calculateSharpness\<close> returns the rounded mean, over the interior pixels, of the
  square root of gx squared plus gy squared, every product, sum, square root and the
  division being rounded to double precision: the luma is summed from left to right,
  gx and gy are the Sobel kernel and its transpose laid over the lumas of the pixel's
  neighbourhood and summed row by row from the top left, and the magnitudes are summed
  in the order of the rows and divided by the number of interior pixels. The pixels of
  the border are neither summed nor counted.
\<close>

theorem sharpness_is_rounded_mean_in_double_precision:
  assumes "3 \<le> w" and "3 \<le> h" and "length data = 4 * (w * h)"
  shows "calculateSharpness64 data w h = Some (spec_sharpness64 data w h)"
  using assms(3,1,2) by (rule calculateSharpness64_spec)

text \<open>
  On the patch image the two interior pixels have the gradients (323.784, -61.168) and
  (15.292, -45.876), up to rounding; the mean of the two magnitudes is 188.934..., and
  the sharpness is 189.
\<close>

theorem sharpness_is_rounded_mean_in_double_precision_witness:
  "(3::nat) \<le> 4 \<and> (3::nat) \<le> 3 \<and> length patch_image = 4 * (4 * 3)
   \<and> calculateSharpness64 patch_image 4 3 = Some 189"
proof -
  have l: "length patch_image = 4 * (4 * 3)"
    by (simp add: patch_image_def)
  have w: "(3::nat) \<le> 4" and h: "(3::nat) \<le> 3"
    by simp_all
  from sharpness_is_rounded_mean_in_double_precision [OF w h l] l
  show ?thesis
    by (simp add: patch_image_sharpness64)
qed

text \<open>
  The formula of the specification, taken in exact arithmetic, is not what the code
  returns. On the tie image the only interior pixel has the gradient 22.5 exactly, which
  rounds to 23; in double precision the luma of the colour (0, 9, 3) is
  5.624999999999999, the gradient 22.499999999999996, and the code returns 22.
\<close>

theorem exact_sharpness_counterexample:
  "calculateSharpness64 tie_image 3 3 = Some 22
   \<and> spec_sharpness tie_image 3 3 = 23
   \<and> calculateSharpness64 tie_image 3 3 \<noteq> Some (spec_sharpness tie_image 3 3)"
proof -
  have l: "length tie_image = 4 * (3 * 3)"
    by (simp add: tie_image_def)
  have "calculateSharpness64 tie_image 3 3 = Some (spec_sharpness64 tie_image 3 3)"
    using l by (rule calculateSharpness64_spec) simp_all
  then show ?thesis
    by (simp add: tie_image_sharpness64 tie_image_sharpness)
qed

end
